theory Spec2Isabelle
  imports Main "HOL-Library.AList" "HOL-Library.Multiset"
begin

section \<open>Values, thrown values and the field-error bag\<close>

text \<open>
  A model of the class \<open>Crud\<close> of \<open>tools/templates/module/client-react/index.tsx\<close>.
  Each method keeps its name; a method whose name starts with an underscore is written
  with the prefix \<open>u_\<close> (\<open>_get\<close> is \<open>u_get\<close>), and \<open>sort\<close> is \<open>sort_crud\<close>.

  The scalar JavaScript values that travel through the class: ids, column values,
  counts.
\<close>

datatype jsval = JUndefined | JNull | JBool bool | JNum int | JStr string

text \<open>JavaScript truthiness, as the guards \<open>if (x)\<close> and \<open>a && b\<close> read it.\<close>

fun truthy :: "jsval \<Rightarrow> bool" where
  "truthy JUndefined = False"
| "truthy JNull = False"
| "truthy (JBool b) = b"
| "truthy (JNum n) = (n \<noteq> 0)"
| "truthy (JStr s) = (s \<noteq> [])"

text \<open>A flat object of scalars: a \<open>where\<close> filter, or a row that the database returns.\<close>

type_synonym row = "(string \<times> jsval) list"

text \<open>Property access \<open>o[key]\<close> on such an object: \<open>undefined\<close> when the key is absent.\<close>

definition prop_of :: "row \<Rightarrow> string \<Rightarrow> jsval" where
  "prop_of r key = (case map_of r key of None \<Rightarrow> JUndefined | Some v \<Rightarrow> v)"

text \<open>
  What a JavaScript \<open>throw\<close> can carry here: the list of field errors that
  \<open>FieldError.throwIf\<close> throws, a \<open>TypeError\<close> of the language itself (reading a property of
  \<open>undefined\<close>), or the rejection of a database statement.
\<close>

datatype thrown = FieldErrors "(string \<times> string) list" | TypeError string | DbError string

text \<open>
  Modelled from the spec: the class \<open>FieldError\<close> (imported from \<open>common/FieldError\<close>,
  not among the sources) is the "single generic field error bag accumulated per call";
  \<open>setError\<close> stores one message per field and \<open>throwIf\<close> throws the accumulated errors
  when the bag holds any ("validation failures: the hook exists but is unused" - on the
  empty bag it does nothing).
\<close>

type_synonym FieldError = "(string \<times> string) list"

text \<open>Modelled from the spec: \<open>new FieldError()\<close>, the bag with no error in it.\<close>

definition new_FieldError :: FieldError where
  "new_FieldError = []"

text \<open>Modelled from the spec: \<open>e.setError(field, message)\<close>, one message per field.\<close>

definition setError :: "FieldError \<Rightarrow> string \<Rightarrow> string \<Rightarrow> FieldError" where
  "setError e field message = AList.update field message e"

text \<open>
  Modelled from the spec: \<open>e.throwIf()\<close> throws the accumulated errors when there are
  any, and returns otherwise.
\<close>

definition throwIf :: "FieldError \<Rightarrow> thrown + unit" where
  "throwIf e = (if e = [] then Inr () else Inl (FieldErrors e))"

section \<open>Schemas and instances\<close>

text \<open>
  A schema descriptor as the class reads it: \<open>schema.name\<close>, \<open>schema.keys()\<close> and
  \<open>schema.values[key]\<close> (here the association list \<open>sfields\<close>, in key order), each value
  with its \<open>type\<close>, \<open>sortBy\<close> and \<open>searchText\<close>. A type is a scalar, an array
  (\<open>type.constructor === Array\<close>) or a schema (\<open>type.isSchema\<close>).
\<close>

datatype ty = TScalar | TArray ty | TSchema schema
  and schema = Schema (sname: string) (sfields: "(string \<times> fdesc) list")
  and fdesc = FDesc (ftype: ty) (sortBy: bool) (searchText: bool)

fun isArray :: "ty \<Rightarrow> bool" where
  "isArray (TArray t) = True"
| "isArray t = False"

text \<open>One \<open>Crud\<close> instance: the three fields behind \<open>getPrefix\<close>, \<open>getTableName\<close>, \<open>getSchema\<close>.\<close>

record crud =
  prefix :: string
  tableName :: string
  schema :: schema

definition getPrefix :: "crud \<Rightarrow> string" where
  "getPrefix self = prefix self"

definition getTableName :: "crud \<Rightarrow> string" where
  "getTableName self = tableName self"

definition getSchema :: "crud \<Rightarrow> schema" where
  "getSchema self = schema self"

text \<open>The table a write statement names: \<open>`${this.prefix}${this.tableName}`\<close>.\<close>

definition table_of :: "crud \<Rightarrow> string" where
  "table_of self = prefix self @ tableName self"

section \<open>Payloads and the external libraries\<close>

text \<open>
  A mutation payload (\<open>data\<close>) is an object whose fields are scalars or nested entries; a
  nested entry is an object with optional \<open>create\<close>, \<open>update\<close> and \<open>delete\<close> lists
  (\<open>None\<close> when the property is absent or \<open>null\<close>): payloads to create, \<open>{data, where}\<close>
  pairs to update, and \<open>where\<close> filters to delete. An object is always truthy.
\<close>

datatype fieldval =
    Scalar jsval
  | Nested "(string \<times> fieldval) list list option"
           "((string \<times> fieldval) list \<times> row) list option"
           "row list option"

type_synonym payload = "(string \<times> fieldval) list"

text \<open>\<open>data[key]\<close>, and its truthiness.\<close>

definition field_of :: "payload \<Rightarrow> string \<Rightarrow> fieldval" where
  "field_of data key = (case map_of data key of None \<Rightarrow> Scalar JUndefined | Some v \<Rightarrow> v)"

fun truthy_field :: "fieldval \<Rightarrow> bool" where
  "truthy_field (Scalar v) = truthy v"
| "truthy_field (Nested c u d) = True"

text \<open>
  The field-selection tree that \<open>graphql-parse-fields\<close> yields: an object whose leaves
  are \<open>true\<close>.
\<close>

datatype fields = FTrue | FObj "(string \<times> fields) list"

text \<open>
  The external libraries are parameters of the model: the casing functions of \<open>humps\<close>
  and \<open>parseFields\<close>, which turns the resolver's \<open>info\<close> (of any type \<open>'i\<close>) into the
  object of selected fields.
\<close>

record 'i libs =
  camelize :: "string \<Rightarrow> string"
  pascalize :: "string \<Rightarrow> string"
  decamelize :: "string \<Rightarrow> string"
  decamelizeKeys :: "payload \<Rightarrow> payload"
  parseFields :: "'i \<Rightarrow> (string \<times> fields) list"

section \<open>Queries, statements and the database\<close>

text \<open>
  Modelled from the spec: the helper \<open>selectBy\<close> (imported from \<open>./helpers\<close>, not among
  the sources) "builds a nested-field projection from the caller's field-selection
  request"; the query keeps the arguments of that projection and nothing else of it.
\<close>

record projection =
  p_schema :: schema
  p_fields :: "fields option"
  p_single :: bool
  p_prefix :: string

datatype cond =
    WhereEq string jsval
  | WhereIn string "jsval list"
  | WhereAnyLike "(string \<times> string) list"

text \<open>
  A query under construction by the query builder: \<open>limit\<close>, \<open>offset\<close>, the \<open>orderBy\<close>
  clauses (a direction of \<open>None\<close> when the call passes none) and the \<open>where\<close> conditions,
  each in call order.
\<close>

record query =
  q_from :: string
  q_select :: projection
  q_limit :: "int option"
  q_offset :: "int option"
  q_orderBy :: "(string \<times> string option) list"
  q_where :: "cond list"

text \<open>
  Modelled from the spec: \<open>selectBy(schema, info, single, prefix)(baseQuery)\<close>, the base
  query with that projection and no other clause.
\<close>

definition selectBy :: "schema \<Rightarrow> fields option \<Rightarrow> bool \<Rightarrow> string \<Rightarrow> string \<Rightarrow> query" where
  "selectBy sch info single pre baseQuery =
     \<lparr>q_from = baseQuery,
      q_select = \<lparr>p_schema = sch, p_fields = info, p_single = single, p_prefix = pre\<rparr>,
      q_limit = None, q_offset = None, q_orderBy = [], q_where = []\<rparr>"

text \<open>\<open>knex(`${this.prefix}${this.tableName} as ${this.tableName}`)\<close>\<close>

definition knex_as :: "string \<Rightarrow> string \<Rightarrow> string" where
  "knex_as pre tn = pre @ tn @ '' as '' @ tn"

text \<open>
  The statements the class sends: \<open>knexnest\<close> of a select query, the first row of
  \<open>countDistinct\<close> on a table (with the column expression it counts), insert (returning \<open>id\<close>), update and delete by a \<open>where\<close> object, delete
  by a list of ids, and the raw rank swap of \<open>_sort\<close> with its bindings.
\<close>

datatype stmt =
    Nest query
  | CountDistinctFirst string string
  | Insert string payload
  | Update string payload row
  | Del string row
  | DelWhereIn string "jsval list"
  | Raw string "jsval list"

record raw_header =
  affectedRows :: nat

text \<open>
  The database is outside the program: it is a parameter that settles each statement,
  by a thrown rejection (\<open>Inl\<close>) or by the value the awaiting code reads. \<open>knexnest\<close> gives
  the rows of a list query or \<open>null\<close>, the row of a single-row query or \<open>null\<close>;
  \<open>first()\<close> gives a row or \<open>undefined\<close>; an insert its returned ids; update and delete
  the number of rows affected; \<open>knex.raw\<close> the list of result headers.
\<close>

record db =
  nested_rows :: "stmt \<Rightarrow> thrown + row list option"
  nested_row :: "stmt \<Rightarrow> thrown + row option"
  first_row :: "stmt \<Rightarrow> thrown + row option"
  returned_ids :: "stmt \<Rightarrow> thrown + jsval list"
  affected :: "stmt \<Rightarrow> thrown + nat"
  raw_result :: "stmt \<Rightarrow> thrown + raw_header list"

text \<open>
  \<open>await\<close> of a statement: the statement is issued; its rejection is thrown, its value is
  passed on. Every method returns what it returns or throws, with the statements it
  issued, in the order in which they start.
\<close>

type_synonym 'a run = "(thrown + 'a) \<times> stmt list"

definition await :: "(stmt \<Rightarrow> thrown + 'a) \<Rightarrow> stmt \<Rightarrow> ('a \<Rightarrow> 'b run) \<Rightarrow> 'b run" where
  "await settle s k =
     (case settle s of
        Inl e \<Rightarrow> (Inl e, [s])
      | Inr a \<Rightarrow> (case k a of (b, t) \<Rightarrow> (b, s # t)))"

text \<open>
  What a mutation returns: the \<open>{ node }\<close> object of \<open>get\<close>, a \<open>{ count }\<close> object, the
  \<open>{ errors: e }\<close> object of a \<open>catch\<close> block, or \<open>undefined\<close> when the body ends without
  a \<open>return\<close>.
\<close>

datatype reply = Node "row option" | Count nat | Errors thrown | Undefined

text \<open>\<open>try { body } catch (e) { return { errors: e } }\<close>\<close>

definition try_catch :: "reply run \<Rightarrow> reply run" where
  "try_catch body =
     (case body of
        (Inl e, t) \<Rightarrow> (Inr (Errors e), t)
      | (Inr r, t) \<Rightarrow> (Inr r, t))"

section \<open>Sort and the bulk mutations\<close>

text \<open>
  \<open>_sort\<close>: the raw two-row update (its SQL text with the line breaks of the template
  left out) with the caller's bindings.
\<close>

definition u_sort :: "crud \<Rightarrow> jsval list \<Rightarrow> stmt" where
  "u_sort self data =
     Raw (''UPDATE '' @ table_of self @ '' t1 JOIN '' @ table_of self @
          '' t2 ON t1.id = ? AND t2.id = ? SET t1.rank = ?, t2.rank = ?'') data"

text \<open>
  \<open>sort\<close>: \<open>const [sortCount] = await this._sort(args)\<close> reads the first header;
  \<open>sortCount.affectedRows\<close> of a missing header is a \<open>TypeError\<close>.
\<close>

definition sort_crud :: "db \<Rightarrow> crud \<Rightarrow> jsval list \<Rightarrow> reply run" where
  "sort_crud D self data =
     try_catch
       (let e = new_FieldError in
        case throwIf e of
          Inl t \<Rightarrow> (Inl t, [])
        | Inr _ \<Rightarrow>
            await (raw_result D) (u_sort self data) (\<lambda>res.
              case res of
                [] \<Rightarrow> (Inl (TypeError ''Cannot read property affectedRows of undefined''), [])
              | sortCount # _ \<Rightarrow>
                  if affectedRows sortCount > 0 then (Inr (Count (affectedRows sortCount)), [])
                  else (case throwIf (setError e ''sort'' ''Could not sort Node. Please try again later.'') of
                          Inl t \<Rightarrow> (Inl t, [])
                        | Inr _ \<Rightarrow> (Inr Undefined, []))))"

text \<open>
  \<open>updateMany\<close>: the body logs, sets the error on a fresh bag and ends; the statement and
  the \<open>throwIf\<close> are commented out in the source, so nothing is thrown and nothing is
  returned.
\<close>

definition updateMany :: "db \<Rightarrow> crud \<Rightarrow> payload \<Rightarrow> jsval list \<Rightarrow> reply run" where
  "updateMany D self data id_in =
     try_catch
       (let e = new_FieldError;
            e' = setError e ''update'' ''Not yet implemented. Please try again later.''
        in (Inr Undefined, []))"

definition u_deleteMany :: "crud \<Rightarrow> jsval list \<Rightarrow> stmt" where
  "u_deleteMany self id_in = DelWhereIn (table_of self) id_in"

definition deleteMany :: "db \<Rightarrow> crud \<Rightarrow> jsval list \<Rightarrow> reply run" where
  "deleteMany D self id_in =
     try_catch
       (let e = new_FieldError in
        await (affected D) (u_deleteMany self id_in) (\<lambda>deleteCount.
          if deleteCount > 0 then (Inr (Count deleteCount), [])
          else (case throwIf (setError e ''delete''
                        ''Could not delete any of selected Node. Please try again later.'') of
                  Inl t \<Rightarrow> (Inl t, [])
                | Inr _ \<Rightarrow> (Inr Undefined, []))))"

section \<open>List queries\<close>

text \<open>
  The arguments of a list query. \<open>None\<close> stands for an absent (\<open>undefined\<close>) argument;
  in \<open>filter\<close>, \<open>searchText = None\<close> for an object without that property
  (\<open>has(filter, 'searchText')\<close> false).
\<close>

record order_spec =
  column :: "string option"
  order :: "string option"

record filter_spec =
  searchText :: "string option"

record list_args =
  limit :: "int option"
  offset :: "int option"
  orderBy :: "order_spec option"
  filterBy :: "filter_spec option"

definition jnum :: "int option \<Rightarrow> jsval" where
  "jnum n = (case n of None \<Rightarrow> JUndefined | Some i \<Rightarrow> JNum i)"

definition jstr :: "string option \<Rightarrow> jsval" where
  "jstr s = (case s of None \<Rightarrow> JUndefined | Some t \<Rightarrow> JStr t)"

text \<open>
  The inner loop of \<open>_getList\<close> over the keys of a related schema: the last key whose value
  has \<open>sortBy\<close> set, \<open>'name'\<close> when there is none.
\<close>

fun remote_sortBy :: "(string \<times> fdesc) list \<Rightarrow> string \<Rightarrow> string" where
  "remote_sortBy [] sortKey = sortKey"
| "remote_sortBy ((remoteKey, remoteValue) # rest) sortKey =
     remote_sortBy rest (if sortBy remoteValue then remoteKey else sortKey)"

text \<open>
  The outer loop over \<open>this.schema.keys()\<close>: where the column is a key of the schema it is
  rewritten, to \<open><related table>.<sort key>\<close> for a schema-typed field and to
  \<open><tableName>.<decamelized column>\<close> otherwise; the loop goes on with the new column.
\<close>

fun order_column :: "'i libs \<Rightarrow> string \<Rightarrow> (string \<times> fdesc) list \<Rightarrow> string \<Rightarrow> string" where
  "order_column L tn [] col = col"
| "order_column L tn ((key, v) # rest) col =
     order_column L tn rest
       (if col = key then
          (case ftype v of
             TSchema s \<Rightarrow> decamelize L (sname s) @ ''.'' @ remote_sortBy (sfields s) ''name''
           | _ \<Rightarrow> tn @ ''.'' @ decamelize L col)
        else col)"

text \<open>
  The callback of \<open>queryBuilder.where\<close>: one \<open>orWhere(..., 'like', ...)\<close> for each key whose
  value has \<open>searchText\<close> set.
\<close>

definition search_conds :: "string \<Rightarrow> (string \<times> fdesc) list \<Rightarrow> string \<Rightarrow> (string \<times> string) list" where
  "search_conds tn fs txt =
     map (\<lambda>(key, v). (tn @ ''.'' @ key, ''%'' @ txt @ ''%''))
       (filter (\<lambda>(key, v). fdesc.searchText v) fs)"

text \<open>
  The guard \<open>orderBy && orderBy.column\<close> of \<open>_getList\<close>: it passes when \<open>orderBy\<close> is
  there and its column is a non-empty string, and then gives the column with the
  specification; an absent \<open>orderBy\<close>, an absent column and the empty string fail it.
\<close>

definition ordered_by :: "order_spec option \<Rightarrow> (string \<times> order_spec) option" where
  "ordered_by ob =
     (case ob of
        None \<Rightarrow> None
      | Some spec \<Rightarrow>
          (case column spec of
             None \<Rightarrow> None
           | Some col \<Rightarrow> if truthy (JStr col) then Some (col, spec) else None))"

definition u_getList :: "'i libs \<Rightarrow> crud \<Rightarrow> list_args \<Rightarrow> fields option \<Rightarrow> stmt" where
  "u_getList L self args info =
     (let baseQuery = knex_as (prefix self) (tableName self);
          q0 = selectBy (schema self) info False (prefix self) baseQuery;
          q1 = (if truthy (jnum (limit args)) then q0\<lparr>q_limit := limit args\<rparr> else q0);
          q2 = (if truthy (jnum (offset args)) then q1\<lparr>q_offset := offset args\<rparr> else q1);
          q3 = (case ordered_by (orderBy args) of
                  Some (col, spec) \<Rightarrow>
                    (let ord = (if truthy (jstr (order spec)) then order spec else Some ''asc'');
                         col' = order_column L (tableName self) (sfields (schema self)) col
                     in q2\<lparr>q_orderBy := q_orderBy q2 @ [(col', ord)]\<rparr>)
                | None \<Rightarrow> q2\<lparr>q_orderBy := q_orderBy q2 @ [(tableName self @ ''.id'', None)]\<rparr>);
          q4 = (case filterBy args of
                  Some f \<Rightarrow>
                    (case searchText f of
                       Some txt \<Rightarrow>
                         if txt \<noteq> [] then
                           q3\<lparr>q_where := q_where q3 @
                              [WhereAnyLike (search_conds (tableName self) (sfields (schema self)) txt)]\<rparr>
                         else q3
                     | None \<Rightarrow> q3)
                | None \<Rightarrow> q3)
      in Nest q4)"

text \<open>\<open>getList\<close>: the list query for the parsed fields of \<open>info\<close>.\<close>

definition getList :: "'i libs \<Rightarrow> db \<Rightarrow> crud \<Rightarrow> list_args \<Rightarrow> 'i \<Rightarrow> (row list option) run" where
  "getList L D self args info =
     await (nested_rows D) (u_getList L self args (Some (FObj (parseFields L info))))
       (\<lambda>rows. (Inr rows, []))"

definition getTotal :: "crud \<Rightarrow> stmt" where
  "getTotal self = CountDistinctFirst (table_of self) ''id as count''"

text \<open>
  \<open>getPaginated\<close>: the list query for \<open>parseFields(info).edges\<close>, then the count query;
  \<open>const { count } = ...\<close> of \<open>undefined\<close> is a \<open>TypeError\<close>. \<open>edges && ...\<close> is \<open>edges\<close>
  itself when that is \<open>null\<close>.
\<close>

record page_info =
  totalCount :: jsval
  hasNextPage :: jsval

record page =
  edges :: "row list option"
  pageInfo :: page_info

definition getPaginated :: "'i libs \<Rightarrow> db \<Rightarrow> crud \<Rightarrow> list_args \<Rightarrow> 'i \<Rightarrow> page run" where
  "getPaginated L D self args info =
     await (nested_rows D) (u_getList L self args (map_of (parseFields L info) ''edges'')) (\<lambda>es.
       await (first_row D) (getTotal self) (\<lambda>total.
         case total of
           None \<Rightarrow> (Inl (TypeError ''Cannot destructure property count of undefined''), [])
         | Some r \<Rightarrow>
             (Inr \<lparr>edges = es,
                   pageInfo = \<lparr>totalCount = prop_of r ''count'',
                               hasNextPage =
                                 (case es of
                                    None \<Rightarrow> JNull
                                  | Some rows \<Rightarrow> JBool (JNum (int (length rows)) = jnum (limit args)))\<rparr>\<rparr>,
              [])))"

section \<open>Get\<close>

text \<open>
  \<open>_get\<close>: the single-row query by \<open>where.id\<close>; \<open>get\<close> wraps what \<open>knexnest\<close> gives, a
  row or \<open>null\<close>, into the object \<open>{ node }\<close>.
\<close>

definition u_get :: "crud \<Rightarrow> row \<Rightarrow> fields option \<Rightarrow> stmt" where
  "u_get self whr info =
     (let ident = prop_of whr ''id'';
          baseQuery = knex_as (prefix self) (tableName self);
          q = selectBy (schema self) info True (prefix self) baseQuery
      in Nest (q\<lparr>q_where := q_where q @ [WhereEq (tableName self @ ''.id'') ident]\<rparr>))"

definition get :: "'i libs \<Rightarrow> db \<Rightarrow> crud \<Rightarrow> row \<Rightarrow> 'i \<Rightarrow> reply run" where
  "get L D self whr info =
     await (nested_row D) (u_get self whr (map_of (parseFields L info) ''node''))
       (\<lambda>node. (Inr (Node node), []))"

section \<open>Delete\<close>

definition u_delete :: "crud \<Rightarrow> row \<Rightarrow> stmt" where
  "u_delete self whr = Del (table_of self) whr"

text \<open>
  Truthiness of what a method returned: every object is truthy, \<open>undefined\<close> is not.
\<close>

fun truthy_reply :: "reply \<Rightarrow> bool" where
  "truthy_reply Undefined = False"
| "truthy_reply r = True"

text \<open>
  \<open>delete\<close>: \<open>node\<close> is the object \<open>{ node }\<close> that \<open>get\<close> returns; \<open>isDeleted\<close> is the
  number of rows the delete statement affected.
\<close>

definition delete :: "'i libs \<Rightarrow> db \<Rightarrow> crud \<Rightarrow> row \<Rightarrow> 'i \<Rightarrow> reply run" where
  "delete L D self whr info =
     try_catch
       (let e = new_FieldError in
        case get L D self whr info of
          (Inl t, issued) \<Rightarrow> (Inl t, issued)
        | (Inr node, issued) \<Rightarrow>
            (let e1 = (if \<not> truthy_reply node then setError e ''delete'' ''Node does not exist.'' else e)
             in case (if \<not> truthy_reply node then throwIf e1 else Inr ()) of
                  Inl t \<Rightarrow> (Inl t, issued)
                | Inr _ \<Rightarrow>
                    (case await (affected D) (u_delete self whr) (\<lambda>isDeleted.
                            if isDeleted \<noteq> 0 then (Inr node, [])
                            else (case throwIf (setError e1 ''delete''
                                          ''Could not delete Node. Please try again later.'') of
                                    Inl t \<Rightarrow> (Inl t, [])
                                  | Inr _ \<Rightarrow> (Inr Undefined, []))) of
                       (r, issued') \<Rightarrow> (r, issued @ issued'))))"

section \<open>Create and update\<close>

text \<open>
  The first loop of \<open>create\<close> and \<open>update\<close>, over \<open>this.schema.keys()\<close>: a key whose type
  is an array and whose value in \<open>data\<close> is truthy is pushed on \<open>nestedEntries\<close> with that
  value and deleted from \<open>data\<close>. The loop returns the entries and the object as it has
  become.
\<close>

fun extract_nested :: "(string \<times> fdesc) list \<Rightarrow> payload \<Rightarrow> (string \<times> fieldval) list \<times> payload" where
  "extract_nested [] data = ([], data)"
| "extract_nested ((key, v) # rest) data =
     (if isArray (ftype v) \<and> truthy_field (field_of data key) then
        (case extract_nested rest (AList.delete key data) of
           (nestedEntries, data') \<Rightarrow> ((key, field_of data key) # nestedEntries, data'))
      else extract_nested rest data)"

definition u_create :: "'i libs \<Rightarrow> crud \<Rightarrow> payload \<Rightarrow> stmt" where
  "u_create L self data = Insert (table_of self) (decamelizeKeys L data)"

definition u_update :: "'i libs \<Rightarrow> crud \<Rightarrow> payload \<Rightarrow> row \<Rightarrow> stmt" where
  "u_update L self data whr = Update (table_of self) (decamelizeKeys L data) whr"

text \<open>
  \<open>ctx\<close> maps a type name to the sibling instance registered under it; a missing name
  gives \<open>undefined\<close>.
\<close>

type_synonym ctx = "string \<Rightarrow> crud option"

text \<open>\<open>create[`${camelize(this.schema.name)}Id`] = id\<close>\<close>

definition foreign_key :: "'i libs \<Rightarrow> crud \<Rightarrow> string" where
  "foreign_key L self = camelize L (sname (schema self)) @ ''Id''"

definition set_fk :: "string \<Rightarrow> jsval \<Rightarrow> payload \<Rightarrow> payload" where
  "set_fk fk ident entry = AList.update fk (Scalar ident) entry"

text \<open>
  The callbacks of the second loop are \<open>async\<close> and nothing awaits them: each runs up to
  the \<open>await\<close> of its statement, and the statement starts one microtask later, whatever
  becomes of it. When \<open>ctx\<close> has no instance under \<open>pascalize(nested.key)\<close> the callback
  is rejected with a \<open>TypeError\<close> that nobody reads, and no statement is issued. A truthy
  scalar has no \<open>create\<close>, \<open>update\<close> or \<open>delete\<close> property.
\<close>

fun child_creates :: "'i libs \<Rightarrow> ctx \<Rightarrow> string \<Rightarrow> jsval \<Rightarrow> string \<times> fieldval \<Rightarrow> stmt list" where
  "child_creates L c fk ident (key, Nested (Some entries) u d) =
     (case c (pascalize L key) of
        None \<Rightarrow> []
      | Some child \<Rightarrow> map (\<lambda>entry. u_create L child (set_fk fk ident entry)) entries)"
| "child_creates L c fk ident (key, v) = []"

fun child_updates :: "'i libs \<Rightarrow> ctx \<Rightarrow> string \<times> fieldval \<Rightarrow> stmt list" where
  "child_updates L c (key, Nested cr (Some entries) d) =
     (case c (pascalize L key) of
        None \<Rightarrow> []
      | Some child \<Rightarrow> map (\<lambda>(data, whr). u_update L child data whr) entries)"
| "child_updates L c (key, v) = []"

fun child_deletes :: "'i libs \<Rightarrow> ctx \<Rightarrow> string \<times> fieldval \<Rightarrow> stmt list" where
  "child_deletes L c (key, Nested cr u (Some entries)) =
     (case c (pascalize L key) of
        None \<Rightarrow> []
      | Some child \<Rightarrow> map (\<lambda>whr. u_delete child whr) entries)"
| "child_deletes L c (key, v) = []"

text \<open>
  The assignment of the foreign key changes the entry objects themselves: a nested value
  as it is once the callbacks have run.
\<close>

fun with_fk :: "string \<Rightarrow> jsval \<Rightarrow> fieldval \<Rightarrow> fieldval" where
  "with_fk fk ident (Nested (Some entries) u d) = Nested (Some (map (set_fk fk ident) entries)) u d"
| "with_fk fk ident v = v"

text \<open>
  A call of \<open>create\<close> or \<open>update\<close>: what it returns with the statements it issued, and
  the state in which it leaves the objects it was given: the \<open>data\<close> object, and the
  values it took out of \<open>data\<close> (they stay reachable for a caller that holds them).
\<close>

record mutation =
  ran :: "reply run"
  data_after :: payload
  nested_after :: "(string \<times> fieldval) list"

text \<open>\<open>const [id] = ...\<close>: the first element, \<open>undefined\<close> for an empty list.\<close>

definition first_of :: "jsval list \<Rightarrow> jsval" where
  "first_of ids = (case ids of [] \<Rightarrow> JUndefined | ident # _ \<Rightarrow> ident)"

text \<open>
  \<open>create\<close>. The statements are listed in the order in which they start: the insert of
  the base row; then the query of the final \<open>get\<close>, which the method starts in the same
  synchronous stretch as the second loop; then the statements of the callbacks, which
  start a microtask later, in the order of the loop, whatever the query is answered.
\<close>

definition create :: "'i libs \<Rightarrow> db \<Rightarrow> crud \<Rightarrow> payload \<Rightarrow> ctx \<Rightarrow> 'i \<Rightarrow> mutation" where
  "create L D self data c info =
     (let e = new_FieldError in
      case throwIf e of
        Inl t \<Rightarrow> \<lparr>ran = try_catch (Inl t, []), data_after = data, nested_after = []\<rparr>
      | Inr _ \<Rightarrow>
          (case extract_nested (sfields (schema self)) data of
             (nestedEntries, data') \<Rightarrow>
               (case returned_ids D (u_create L self data') of
                  Inl t \<Rightarrow>
                    \<lparr>ran = try_catch (Inl t, [u_create L self data']),
                     data_after = data', nested_after = nestedEntries\<rparr>
                | Inr ids \<Rightarrow>
                    (let ident = first_of ids;
                         fk = foreign_key L self;
                         children = concat (map (child_creates L c fk ident) nestedEntries)
                     in case get L D self [(''id'', ident)] info of
                          (r, issued) \<Rightarrow>
                            \<lparr>ran = try_catch (r, u_create L self data' # issued @ children),
                             data_after = data',
                             nested_after = map (\<lambda>(key, v). (key, with_fk fk ident v)) nestedEntries\<rparr>))))"

text \<open>
  \<open>update\<close>: the same first loop on \<open>args.data\<close> and the update of the base row; the
  second loop starts, for each nested entry, the callbacks of its creates (with
  \<open>args.where.id\<close> as the foreign key), of its updates and of its deletes. As in
  \<open>create\<close>, the query of the final \<open>get\<close> starts before the statements of the
  callbacks.
\<close>

definition update :: "'i libs \<Rightarrow> db \<Rightarrow> crud \<Rightarrow> payload \<Rightarrow> row \<Rightarrow> ctx \<Rightarrow> 'i \<Rightarrow> mutation" where
  "update L D self data whr c info =
     (let e = new_FieldError in
      case throwIf e of
        Inl t \<Rightarrow> \<lparr>ran = try_catch (Inl t, []), data_after = data, nested_after = []\<rparr>
      | Inr _ \<Rightarrow>
          (case extract_nested (sfields (schema self)) data of
             (nestedEntries, data') \<Rightarrow>
               (case affected D (u_update L self data' whr) of
                  Inl t \<Rightarrow>
                    \<lparr>ran = try_catch (Inl t, [u_update L self data' whr]),
                     data_after = data', nested_after = nestedEntries\<rparr>
                | Inr _ \<Rightarrow>
                    (let ident = prop_of whr ''id'';
                         fk = foreign_key L self;
                         children = concat (map (\<lambda>nested.
                                       child_creates L c fk ident nested @
                                       child_updates L c nested @
                                       child_deletes L c nested) nestedEntries)
                     in case get L D self whr info of
                          (r, issued) \<Rightarrow>
                            \<lparr>ran = try_catch (r, u_update L self data' whr # issued @ children),
                             data_after = data',
                             nested_after = map (\<lambda>(key, v). (key, with_fk fk ident v)) nestedEntries\<rparr>))))"

section \<open>Loading by foreign key\<close>

text \<open>
  Modelled from the spec: the helper \<open>orderedFor\<close> (imported from \<open>./helpers\<close>, not among
  the sources) "re-orders results to match the input id order (batched-loader pattern)":
  for each id of the collection, in the collection's order, the rows whose \<open>field\<close> is
  that id (no rows at all when the query gave \<open>null\<close>). The spec says nothing of the
  fourth argument of the call (\<open>false\<close> in \<open>getByIds\<close>); it is left out.
\<close>

definition orderedFor :: "row list option \<Rightarrow> jsval list \<Rightarrow> string \<Rightarrow> row list list" where
  "orderedFor rows collection field =
     map (\<lambda>element. filter (\<lambda>r. prop_of r field = element) (case rows of None \<Rightarrow> [] | Some rs \<Rightarrow> rs))
       collection"

text \<open>
  \<open>getByIds\<close>: the parsed fields with \<open>`${by}Id`\<close> set, the rows of \<open>Obj\<close>'s table whose
  \<open><decamelized by>_id\<close> column is among the ids, handed to \<open>orderedFor\<close>.
\<close>

definition getByIds_query :: "'i libs \<Rightarrow> jsval list \<Rightarrow> string \<Rightarrow> crud \<Rightarrow> 'i \<Rightarrow> stmt" where
  "getByIds_query L ids by Obj info =
     (let info' = AList.update (by @ ''Id'') FTrue (parseFields L info);
          baseQuery = knex_as (getPrefix Obj) (getTableName Obj);
          q = selectBy (getSchema Obj) (Some (FObj info')) False (getPrefix Obj) baseQuery
      in Nest (q\<lparr>q_where := q_where q @
                 [WhereIn (getTableName Obj @ ''.'' @ decamelize L by @ ''_id'') ids]\<rparr>))"

definition getByIds :: "'i libs \<Rightarrow> db \<Rightarrow> jsval list \<Rightarrow> string \<Rightarrow> crud \<Rightarrow> 'i \<Rightarrow> (row list list) run" where
  "getByIds L D ids by Obj info =
     await (nested_rows D) (getByIds_query L ids by Obj info)
       (\<lambda>res. (Inr (orderedFor res ids (by @ ''Id'')), []))"

section \<open>Predicates of the statements below\<close>

text \<open>
  The keys that the first loop of \<open>create\<close> and \<open>update\<close> takes out of \<open>data\<close>: the
  schema declares the key with an array type, and the value of the key in \<open>data\<close> is
  truthy.
\<close>

definition taken_out :: "(string \<times> fdesc) list \<Rightarrow> payload \<Rightarrow> string \<Rightarrow> bool" where
  "taken_out fs data key =
     (list_ex (\<lambda>(k, d). k = key \<and> isArray (ftype d)) fs \<and> truthy_field (field_of data key))"

text \<open>
  The entries of the \<open>create\<close> lists of the values taken out, each with the key it came
  under, in the order in which the second loop visits them.
\<close>

fun create_entries :: "string \<times> fieldval \<Rightarrow> (string \<times> payload) list" where
  "create_entries (key, Nested (Some entries) u d) = map (Pair key) entries"
| "create_entries (key, v) = []"

text \<open>The database rejects statement \<open>s\<close> with \<open>t\<close>, whichever way the statement is read.\<close>

definition rejects :: "db \<Rightarrow> stmt \<Rightarrow> thrown \<Rightarrow> bool" where
  "rejects D s t =
     (nested_rows D s = Inl t \<or> nested_row D s = Inl t \<or> first_row D s = Inl t \<or>
      returned_ids D s = Inl t \<or> affected D s = Inl t \<or> raw_result D s = Inl t)"

text \<open>
  What the \<open>catch\<close> block of a mutation may hold: a list of one field error that the
  method sets itself (\<open>own\<close> lists those), a \<open>TypeError\<close>, or the rejection of one of the
  statements it issued.
\<close>

fun caught_from :: "db \<Rightarrow> (string \<times> string) list \<Rightarrow> stmt list \<Rightarrow> thrown \<Rightarrow> bool" where
  "caught_from D own issued (FieldErrors fe) =
     (list_ex (\<lambda>err. fe = [err]) own \<or> list_ex (\<lambda>s. rejects D s (FieldErrors fe)) issued)"
| "caught_from D own issued (TypeError m) = True"
| "caught_from D own issued (DbError m) = list_ex (\<lambda>s. rejects D s (DbError m)) issued"

text \<open>
  A mutation's result is its payload or \<open>{ errors }\<close>: it has returned (not thrown), and
  what it returned is a \<open>{ node }\<close> or \<open>{ count }\<close> object or an \<open>{ errors: e }\<close> object
  whose \<open>e\<close> was caught from the body.
\<close>

fun payload_or_errors :: "db \<Rightarrow> (string \<times> string) list \<Rightarrow> reply run \<Rightarrow> bool" where
  "payload_or_errors D own (Inr (Node n), issued) = True"
| "payload_or_errors D own (Inr (Count k), issued) = True"
| "payload_or_errors D own (Inr (Errors t), issued) = caught_from D own issued t"
| "payload_or_errors D own (Inr Undefined, issued) = False"
| "payload_or_errors D own (Inl t, issued) = False"

text \<open>The call has ended by returning, not by throwing to its caller.\<close>

fun returns :: "reply run \<Rightarrow> bool" where
  "returns (Inr r, issued) = True"
| "returns (Inl t, issued) = False"

section \<open>Example instances\<close>

text \<open>
  Concrete inputs for the evaluations below: a \<open>post\<close> table whose schema has the nested
  collection \<open>comments\<close>, and the \<open>comment\<close> table of its children.
\<close>

definition ex_comment_schema :: schema where
  "ex_comment_schema =
     Schema ''Comment''
       [(''id'', FDesc TScalar False False),
        (''content'', FDesc TScalar False True),
        (''postId'', FDesc TScalar False False)]"

definition ex_post_schema :: schema where
  "ex_post_schema =
     Schema ''Post''
       [(''id'', FDesc TScalar False False),
        (''title'', FDesc TScalar True True),
        (''comments'', FDesc (TArray (TSchema ex_comment_schema)) False False)]"

definition ex_post :: crud where
  "ex_post = \<lparr>prefix = ''app_'', tableName = ''post'', schema = ex_post_schema\<rparr>"

definition ex_comment :: crud where
  "ex_comment = \<lparr>prefix = ''app_'', tableName = ''comment'', schema = ex_comment_schema\<rparr>"

definition ex_ctx :: ctx where
  "ex_ctx name = (if name = ''Comments'' then Some ex_comment else None)"

text \<open>
  A payload for a new post with two comments to create, and the same post with \<open>null\<close>
  for its comments.
\<close>

definition ex_new_post :: payload where
  "ex_new_post =
     [(''title'', Scalar (JStr ''t'')),
      (''comments'',
       Nested (Some [[(''content'', Scalar (JStr ''hi''))], [(''content'', Scalar (JStr ''yo''))]])
         None None)]"

definition ex_bare_post :: payload where
  "ex_bare_post = [(''title'', Scalar (JStr ''t'')), (''comments'', Scalar JNull)]"

text \<open>
  Stand-ins for the libraries on ASCII words, after \<open>humps\<close>: \<open>decamelize\<close> puts an
  underscore before every capital but a leading one and lowers the capitals; \<open>camelize\<close>
  drops each run of \<open>-\<close>, \<open>_\<close> and spaces, raises the letter after it and lowers the
  first letter; \<open>pascalize\<close> raises the first letter of that; \<open>decamelizeKeys\<close>
  decamelizes the keys of an object of scalars.
\<close>

definition to_upper :: "char \<Rightarrow> char" where
  "to_upper ch =
     (case map_of (zip ''abcdefghijklmnopqrstuvwxyz'' ''ABCDEFGHIJKLMNOPQRSTUVWXYZ'') ch of
        None \<Rightarrow> ch | Some u \<Rightarrow> u)"

definition to_lower :: "char \<Rightarrow> char" where
  "to_lower ch =
     (case map_of (zip ''ABCDEFGHIJKLMNOPQRSTUVWXYZ'' ''abcdefghijklmnopqrstuvwxyz'') ch of
        None \<Rightarrow> ch | Some l \<Rightarrow> l)"

definition is_upper :: "char \<Rightarrow> bool" where
  "is_upper ch = (ch \<in> set ''ABCDEFGHIJKLMNOPQRSTUVWXYZ'')"

definition lower_first :: "string \<Rightarrow> string" where
  "lower_first s = (case s of [] \<Rightarrow> [] | ch # rest \<Rightarrow> to_lower ch # rest)"

definition upper_first :: "string \<Rightarrow> string" where
  "upper_first s = (case s of [] \<Rightarrow> [] | ch # rest \<Rightarrow> to_upper ch # rest)"

fun words_apart :: "string \<Rightarrow> string" where
  "words_apart [] = []"
| "words_apart (ch # rest) =
     (if is_upper ch then CHR ''_'' # to_lower ch # words_apart rest else ch # words_apart rest)"

definition ex_decamelize :: "string \<Rightarrow> string" where
  "ex_decamelize s = (case s of [] \<Rightarrow> [] | ch # rest \<Rightarrow> to_lower ch # words_apart rest)"

fun words_joined :: "bool \<Rightarrow> string \<Rightarrow> string" where
  "words_joined raise [] = []"
| "words_joined raise (ch # rest) =
     (if ch \<in> set ''-_ '' then words_joined True rest
      else (if raise then to_upper ch else ch) # words_joined False rest)"

definition ex_camelize :: "string \<Rightarrow> string" where
  "ex_camelize s = lower_first (words_joined False s)"

definition ex_libs :: "unit libs" where
  "ex_libs =
     \<lparr>camelize = ex_camelize,
      pascalize = (\<lambda>s. upper_first (ex_camelize s)),
      decamelize = ex_decamelize,
      decamelizeKeys = map (\<lambda>(key, v). (ex_decamelize key, v)),
      parseFields = (\<lambda>info. [(''node'', FObj [(''id'', FTrue), (''title'', FTrue)]),
                              (''edges'', FObj [(''id'', FTrue), (''title'', FTrue)])])\<rparr>"

text \<open>
  Three databases: one whose tables are empty (queries find nothing, statements affect
  no row), one that holds the rows asked for (two posts), and one that rejects every
  statement.
\<close>

definition ex_db_empty :: db where
  "ex_db_empty =
     \<lparr>nested_rows = (\<lambda>s. Inr None),
      nested_row = (\<lambda>s. Inr None),
      first_row = (\<lambda>s. Inr (Some [(''count'', JNum 0)])),
      returned_ids = (\<lambda>s. Inr [JNum 1]),
      affected = (\<lambda>s. Inr 0),
      raw_result = (\<lambda>s. Inr [\<lparr>affectedRows = 0\<rparr>])\<rparr>"

definition ex_db_full :: db where
  "ex_db_full =
     \<lparr>nested_rows = (\<lambda>s. Inr (Some [[(''id'', JNum 1), (''title'', JStr ''a'')],
                                      [(''id'', JNum 2), (''title'', JStr ''b'')]])),
      nested_row = (\<lambda>s. Inr (Some [(''id'', JNum 1), (''title'', JStr ''a'')])),
      first_row = (\<lambda>s. Inr (Some [(''count'', JNum 2)])),
      returned_ids = (\<lambda>s. Inr [JNum 3]),
      affected = (\<lambda>s. Inr 1),
      raw_result = (\<lambda>s. Inr [\<lparr>affectedRows = 2\<rparr>])\<rparr>"

definition ex_db_down :: db where
  "ex_db_down =
     \<lparr>nested_rows = (\<lambda>s. Inl (DbError ''connection lost'')),
      nested_row = (\<lambda>s. Inl (DbError ''connection lost'')),
      first_row = (\<lambda>s. Inl (DbError ''connection lost'')),
      returned_ids = (\<lambda>s. Inl (DbError ''connection lost'')),
      affected = (\<lambda>s. Inl (DbError ''connection lost'')),
      raw_result = (\<lambda>s. Inl (DbError ''connection lost''))\<rparr>"

text \<open>
  Two databases that hold the same three comments, of the posts 1, 2 and 1, and answer
  a list query with them in opposite orders.
\<close>

definition ex_comment_rows :: "row list" where
  "ex_comment_rows =
     [[(''id'', JNum 10), (''postId'', JNum 1)],
      [(''id'', JNum 11), (''postId'', JNum 2)],
      [(''id'', JNum 12), (''postId'', JNum 1)]]"

definition ex_db_comments :: db where
  "ex_db_comments = ex_db_full\<lparr>nested_rows := (\<lambda>s. Inr (Some ex_comment_rows))\<rparr>"

definition ex_db_comments_rev :: db where
  "ex_db_comments_rev = ex_db_full\<lparr>nested_rows := (\<lambda>s. Inr (Some (rev ex_comment_rows)))\<rparr>"

section \<open>Facts about the building blocks\<close>

lemma field_of_delete:
  "field_of (AList.delete k data) key = (if key = k then Scalar JUndefined else field_of data key)"
  by (simp add: field_of_def delete_conv')

lemma taken_out_Cons:
  "taken_out ((k, d) # fs) data key =
     ((k = key \<and> isArray (ftype d) \<and> truthy_field (field_of data key)) \<or> taken_out fs data key)"
  by (auto simp: taken_out_def)

lemma taken_out_delete:
  "taken_out fs (AList.delete k data) key = (key \<noteq> k \<and> taken_out fs data key)"
  by (auto simp: taken_out_def field_of_delete)

text \<open>
  The first loop, as a whole: the object loses exactly the keys taken out, and the
  entries are exactly those keys, each once, with the value the object had for it.
\<close>

lemma extract_nested_data:
  "map_of (snd (extract_nested fs data)) key =
     (if taken_out fs data key then None else map_of data key)"
proof (induction fs arbitrary: data)
  case Nil
  show ?case by (simp add: taken_out_def)
next
  case (Cons f fs)
  obtain k d where f: "f = (k, d)" by (cases f)
  show ?case
    by (auto simp: f Cons.IH taken_out_Cons taken_out_delete delete_conv' split_beta)
qed

lemma extract_nested_entries:
  "set (fst (extract_nested fs data)) = {(key, field_of data key) | key. taken_out fs data key}"
proof (induction fs arbitrary: data)
  case Nil
  show ?case by (simp add: taken_out_def)
next
  case (Cons f fs)
  obtain k d where f: "f = (k, d)" by (cases f)
  show ?case
    by (auto simp: f Cons.IH taken_out_Cons taken_out_delete field_of_delete split_beta)
qed

lemma extract_nested_distinct:
  "distinct (map fst (fst (extract_nested fs data)))"
proof (induction fs arbitrary: data)
  case Nil
  show ?case by simp
next
  case (Cons f fs)
  obtain k d where f: "f = (k, d)" by (cases f)
  have "k \<notin> fst ` set (fst (extract_nested fs (AList.delete k data)))"
    by (auto simp: extract_nested_entries taken_out_delete)
  then show ?case
    by (auto simp: f Cons.IH split_beta)
qed

lemma throwIf_setError:
  "throwIf (setError new_FieldError field message) = Inl (FieldErrors [(field, message)])"
  by (simp add: throwIf_def setError_def new_FieldError_def)

lemma throwIf_new: "throwIf new_FieldError = Inr ()"
  by (simp add: throwIf_def new_FieldError_def)

lemma get_run:
  "get L D self whr info =
     (case nested_row D (u_get self whr (map_of (parseFields L info) ''node'')) of
        Inl t \<Rightarrow> (Inl t, [u_get self whr (map_of (parseFields L info) ''node'')])
      | Inr n \<Rightarrow> (Inr (Node n), [u_get self whr (map_of (parseFields L info) ''node'')]))"
  by (simp add: get_def await_def split: sum.splits)

section \<open>The bulk update\<close>

text \<open>
  C1. The claim: for every argument object, \<open>updateMany\<close> returns an object whose
  \<open>errors\<close> field carries a "not implemented" field error. The code sets that error on
  its bag and never throws or returns it: for every argument, \<open>updateMany\<close> issues no
  statement and returns \<open>undefined\<close>, which is no \<open>{ errors }\<close> object.
\<close>

theorem updateMany_returns_undefined:
  "updateMany D self data id_in = (Inr Undefined, [])"
  by (simp add: updateMany_def try_catch_def)

section \<open>Properties of delete\<close>

text \<open>
  C2. The claim: a \<open>delete\<close> whose filter matches no row returns the field error
  \<open>'Node does not exist.'\<close> and does not reach the delete statement. On the empty
  database, where the query finds no row (\<open>null\<close>) and the delete statement affects
  none, \<open>delete\<close> issues the query and then the delete statement, and the error it
  returns is the one of the zero-rows branch.
\<close>

theorem delete_of_missing_row:
  "delete ex_libs ex_db_empty ex_post [(''id'', JNum 7)] () =
     (Inr (Errors (FieldErrors [(''delete'', ''Could not delete Node. Please try again later.'')])),
      [u_get ex_post [(''id'', JNum 7)] (Some (FObj [(''id'', FTrue), (''title'', FTrue)])),
       u_delete ex_post [(''id'', JNum 7)]])"
  by (simp add: delete_def get_run ex_db_empty_def ex_libs_def try_catch_def await_def
      throwIf_setError)

text \<open>
  C5. For every \<open>delete\<close> call in which the query and the delete statement are
  answered: the query is issued first, then the delete statement; when that affects at
  least one row the call returns the \<open>{ node }\<close> object fetched before the deletion, and
  when it affects no row the call returns the field error of \<open>delete\<close>.
\<close>

theorem delete_returns_fetched_node:
  assumes "nested_row D (u_get self whr (map_of (parseFields L info) ''node'')) = Inr n"
    and "affected D (u_delete self whr) = Inr k"
  shows "delete L D self whr info =
     (if k > 0 then Inr (Node n)
      else Inr (Errors (FieldErrors [(''delete'', ''Could not delete Node. Please try again later.'')])),
      [u_get self whr (map_of (parseFields L info) ''node''), u_delete self whr])"
  using assms
  by (simp add: delete_def get_run try_catch_def await_def throwIf_setError)

theorem delete_returns_fetched_node_witness:
  "delete ex_libs ex_db_full ex_post [(''id'', JNum 1)] () =
     (Inr (Node (Some [(''id'', JNum 1), (''title'', JStr ''a'')])),
      [u_get ex_post [(''id'', JNum 1)] (map_of (parseFields ex_libs ()) ''node''),
       u_delete ex_post [(''id'', JNum 1)]]) \<and>
   delete ex_libs ex_db_empty ex_post [(''id'', JNum 9)] () =
     (Inr (Errors (FieldErrors [(''delete'', ''Could not delete Node. Please try again later.'')])),
      [u_get ex_post [(''id'', JNum 9)] (map_of (parseFields ex_libs ()) ''node''),
       u_delete ex_post [(''id'', JNum 9)]])"
proof -
  have gone: "nested_row ex_db_empty (u_get ex_post [(''id'', JNum 9)] (map_of (parseFields ex_libs ()) ''node''))
      = Inr None"
    by (simp add: ex_db_empty_def)
  have none: "affected ex_db_empty (u_delete ex_post [(''id'', JNum 9)]) = Inr 0"
    by (simp add: ex_db_empty_def)
  have fetched: "nested_row ex_db_full (u_get ex_post [(''id'', JNum 1)] (map_of (parseFields ex_libs ()) ''node''))
      = Inr (Some [(''id'', JNum 1), (''title'', JStr ''a'')])"
    by (simp add: ex_db_full_def)
  have deleted: "affected ex_db_full (u_delete ex_post [(''id'', JNum 1)]) = Inr 1"
    by (simp add: ex_db_full_def)
  show ?thesis
    using delete_returns_fetched_node [OF fetched deleted]
      delete_returns_fetched_node [OF gone none] by simp
qed

section \<open>Properties of sort\<close>

text \<open>
  C8. For every \<open>sort\<close> call whose rank-swap statement is answered with a result
  header: when the header reports at least one affected row the call returns
  \<open>{ count }\<close> with that number, and when it reports none the call returns the field
  error of \<open>sort\<close>; the rank swap is the one statement issued.
\<close>

theorem sort_count_or_error:
  assumes "raw_result D (u_sort self data) = Inr (sortCount # rest)"
  shows "sort_crud D self data =
     (if affectedRows sortCount > 0 then Inr (Count (affectedRows sortCount))
      else Inr (Errors (FieldErrors [(''sort'', ''Could not sort Node. Please try again later.'')])),
      [u_sort self data])"
  using assms
  by (simp add: sort_crud_def try_catch_def await_def throwIf_setError throwIf_new)

theorem sort_count_or_error_witness:
  "sort_crud ex_db_full ex_post [JNum 1, JNum 2, JNum 20, JNum 10] =
     (Inr (Count 2), [u_sort ex_post [JNum 1, JNum 2, JNum 20, JNum 10]]) \<and>
   sort_crud ex_db_empty ex_post [JNum 1, JNum 2, JNum 20, JNum 10] =
     (Inr (Errors (FieldErrors [(''sort'', ''Could not sort Node. Please try again later.'')])),
      [u_sort ex_post [JNum 1, JNum 2, JNum 20, JNum 10]])"
proof -
  have swapped: "raw_result ex_db_full (u_sort ex_post [JNum 1, JNum 2, JNum 20, JNum 10])
      = Inr (\<lparr>affectedRows = 2\<rparr> # [])"
    by (simp add: ex_db_full_def)
  have untouched: "raw_result ex_db_empty (u_sort ex_post [JNum 1, JNum 2, JNum 20, JNum 10])
      = Inr (\<lparr>affectedRows = 0\<rparr> # [])"
    by (simp add: ex_db_empty_def)
  show ?thesis
    using sort_count_or_error [OF swapped] sort_count_or_error [OF untouched] by simp
qed

section \<open>Properties of the list queries\<close>

lemma u_getList_default_order:
  assumes "ordered_by (orderBy args) = None"
  shows "\<exists>q. u_getList L self args info = Nest q \<and> q_orderBy q = [(tableName self @ ''.id'', None)]"
  using assms
  by (simp add: u_getList_def selectBy_def Let_def split: option.splits)

text \<open>
  C9. For every list query, \<open>getList\<close> and \<open>getPaginated\<close> alike, whose arguments hold
  no order specification with a column: the query that is issued has one ordering
  clause, the column \<open><tableName>.id\<close> (with no direction given).
\<close>

theorem list_queries_order_by_id:
  assumes "ordered_by (orderBy args) = None"
  shows "\<exists>q q' rest.
           snd (getList L D self args info) = [Nest q] \<and>
           q_orderBy q = [(tableName self @ ''.id'', None)] \<and>
           snd (getPaginated L D self args info) = Nest q' # rest \<and>
           q_orderBy q' = [(tableName self @ ''.id'', None)]"
proof -
  obtain q where q: "u_getList L self args (Some (FObj (parseFields L info))) = Nest q"
      "q_orderBy q = [(tableName self @ ''.id'', None)]"
    using u_getList_default_order [OF assms] by blast
  obtain q' where q': "u_getList L self args (map_of (parseFields L info) ''edges'') = Nest q'"
      "q_orderBy q' = [(tableName self @ ''.id'', None)]"
    using u_getList_default_order [OF assms] by blast
  have "snd (getList L D self args info) = [Nest q]"
    by (simp add: getList_def await_def q split: sum.splits)
  moreover have "\<exists>rest. snd (getPaginated L D self args info) = Nest q' # rest"
    by (simp add: getPaginated_def await_def q' split: sum.splits option.splits)
  ultimately show ?thesis
    using q q' by blast
qed

theorem list_queries_order_by_id_witness:
  "\<exists>q q' rest.
     snd (getList ex_libs ex_db_full ex_post
            \<lparr>limit = Some 2, offset = None, orderBy = Some \<lparr>column = Some '''', order = Some ''desc''\<rparr>,
             filterBy = None\<rparr> ()) = [Nest q] \<and>
     q_orderBy q = [(''post.id'', None)] \<and>
     snd (getPaginated ex_libs ex_db_full ex_post
            \<lparr>limit = Some 2, offset = None, orderBy = Some \<lparr>column = Some '''', order = Some ''desc''\<rparr>,
             filterBy = None\<rparr> ()) = Nest q' # rest \<and>
     q_orderBy q' = [(''post.id'', None)]"
proof -
  have no_column: "ordered_by (orderBy \<lparr>limit = Some 2, offset = None,
      orderBy = Some \<lparr>column = Some '''', order = Some ''desc''\<rparr>, filterBy = None\<rparr>) = None"
    by (simp add: ordered_by_def)
  show ?thesis
    using list_queries_order_by_id [OF no_column, of ex_libs ex_db_full ex_post "()"]
    by (simp add: ex_post_def)
qed

text \<open>
  C3, as the code has it. A page of limit 0 on the empty database: the list query gives
  \<open>null\<close>, so no edge is returned and the requested limit is 0, yet \<open>hasNextPage\<close> is
  that \<open>null\<close> and not \<open>true\<close>.
\<close>

theorem getPaginated_null_edges:
  "fst (getPaginated ex_libs ex_db_empty ex_post
          \<lparr>limit = Some 0, offset = None, orderBy = None, filterBy = None\<rparr> ()) =
     Inr \<lparr>edges = None, pageInfo = \<lparr>totalCount = JNum 0, hasNextPage = JNull\<rparr>\<rparr>"
  by (simp add: getPaginated_def await_def ex_db_empty_def prop_of_def)

text \<open>
  C3, amended. For every \<open>getPaginated\<close> call whose two statements are answered: the
  call issues the list query and then, separately, the query for the first row of
  \<open>countDistinct('id as count')\<close> on the table; the page holds the edges of the first
  and, as \<open>totalCount\<close>, the \<open>count\<close> of the second; \<open>hasNextPage\<close> is the \<open>null\<close> of
  the list query when that gave \<open>null\<close>, whatever the limit, and otherwise the boolean
  "the number of edges is the requested limit": it is \<open>true\<close> exactly when the edges are
  a list whose length is the limit.
\<close>

theorem getPaginated_page:
  assumes "nested_rows D (u_getList L self args (map_of (parseFields L info) ''edges'')) = Inr es"
    and "first_row D (CountDistinctFirst (prefix self @ tableName self) ''id as count'') =
           Inr (Some counted)"
  shows "\<exists>p. getPaginated L D self args info =
               (Inr p, [u_getList L self args (map_of (parseFields L info) ''edges''),
                        CountDistinctFirst (prefix self @ tableName self) ''id as count'']) \<and>
             edges p = es \<and>
             totalCount (pageInfo p) = prop_of counted ''count'' \<and>
             hasNextPage (pageInfo p) =
               (case es of
                  None \<Rightarrow> JNull
                | Some rows \<Rightarrow> JBool (limit args = Some (int (length rows)))) \<and>
             (hasNextPage (pageInfo p) = JBool True \<longleftrightarrow>
                (\<exists>rows. es = Some rows \<and> limit args = Some (int (length rows))))"
  using assms
  by (auto simp: getPaginated_def getTotal_def table_of_def await_def jnum_def split: option.splits)

theorem getPaginated_page_witness:
  "(\<exists>p. getPaginated ex_libs ex_db_full ex_post
            \<lparr>limit = Some 2, offset = None, orderBy = None, filterBy = None\<rparr> () =
          (Inr p, [u_getList ex_libs ex_post \<lparr>limit = Some 2, offset = None, orderBy = None, filterBy = None\<rparr>
                     (map_of (parseFields ex_libs ()) ''edges''),
                   CountDistinctFirst ''app_post'' ''id as count'']) \<and>
        edges p = Some [[(''id'', JNum 1), (''title'', JStr ''a'')], [(''id'', JNum 2), (''title'', JStr ''b'')]] \<and>
        totalCount (pageInfo p) = JNum 2 \<and>
        hasNextPage (pageInfo p) = JBool True) \<and>
   (\<exists>p. getPaginated ex_libs ex_db_full ex_post
            \<lparr>limit = Some 5, offset = None, orderBy = None, filterBy = None\<rparr> () =
          (Inr p, [u_getList ex_libs ex_post \<lparr>limit = Some 5, offset = None, orderBy = None, filterBy = None\<rparr>
                     (map_of (parseFields ex_libs ()) ''edges''),
                   CountDistinctFirst ''app_post'' ''id as count'']) \<and>
        totalCount (pageInfo p) = JNum 2 \<and>
        hasNextPage (pageInfo p) = JBool False) \<and>
   (\<exists>p. getPaginated ex_libs ex_db_empty ex_post
            \<lparr>limit = Some 5, offset = None, orderBy = None, filterBy = None\<rparr> () =
          (Inr p, [u_getList ex_libs ex_post \<lparr>limit = Some 5, offset = None, orderBy = None, filterBy = None\<rparr>
                     (map_of (parseFields ex_libs ()) ''edges''),
                   CountDistinctFirst ''app_post'' ''id as count'']) \<and>
        edges p = None \<and>
        totalCount (pageInfo p) = JNum 0 \<and>
        hasNextPage (pageInfo p) = JNull)"
proof -
  have listed: "nested_rows ex_db_full (u_getList ex_libs ex_post args (map_of (parseFields ex_libs ()) ''edges''))
      = Inr (Some [[(''id'', JNum 1), (''title'', JStr ''a'')], [(''id'', JNum 2), (''title'', JStr ''b'')]])" for args
    by (simp add: ex_db_full_def)
  have totalled: "first_row ex_db_full (CountDistinctFirst (prefix ex_post @ tableName ex_post) ''id as count'')
      = Inr (Some [(''count'', JNum 2)])"
    by (simp add: ex_db_full_def)
  have unlisted: "nested_rows ex_db_empty (u_getList ex_libs ex_post args (map_of (parseFields ex_libs ()) ''edges''))
      = Inr None" for args
    by (simp add: ex_db_empty_def)
  have zero: "first_row ex_db_empty (CountDistinctFirst (prefix ex_post @ tableName ex_post) ''id as count'')
      = Inr (Some [(''count'', JNum 0)])"
    by (simp add: ex_db_empty_def)
  have at_table: "prefix ex_post @ tableName ex_post = ''app_post''"
    by (simp add: ex_post_def)
  have two: "\<exists>p. getPaginated ex_libs ex_db_full ex_post
            \<lparr>limit = Some 2, offset = None, orderBy = None, filterBy = None\<rparr> () =
          (Inr p, [u_getList ex_libs ex_post \<lparr>limit = Some 2, offset = None, orderBy = None, filterBy = None\<rparr>
                     (map_of (parseFields ex_libs ()) ''edges''),
                   CountDistinctFirst ''app_post'' ''id as count'']) \<and>
        edges p = Some [[(''id'', JNum 1), (''title'', JStr ''a'')], [(''id'', JNum 2), (''title'', JStr ''b'')]] \<and>
        totalCount (pageInfo p) = JNum 2 \<and>
        hasNextPage (pageInfo p) = JBool True"
    using getPaginated_page [OF listed totalled, of "\<lparr>limit = Some 2, offset = None, orderBy = None, filterBy = None\<rparr>"]
    by (simp add: prop_of_def at_table)
  have five: "\<exists>p. getPaginated ex_libs ex_db_full ex_post
            \<lparr>limit = Some 5, offset = None, orderBy = None, filterBy = None\<rparr> () =
          (Inr p, [u_getList ex_libs ex_post \<lparr>limit = Some 5, offset = None, orderBy = None, filterBy = None\<rparr>
                     (map_of (parseFields ex_libs ()) ''edges''),
                   CountDistinctFirst ''app_post'' ''id as count'']) \<and>
        totalCount (pageInfo p) = JNum 2 \<and>
        hasNextPage (pageInfo p) = JBool False"
    using getPaginated_page [OF listed totalled, of "\<lparr>limit = Some 5, offset = None, orderBy = None, filterBy = None\<rparr>"]
    by (auto simp: prop_of_def at_table)
  have none: "\<exists>p. getPaginated ex_libs ex_db_empty ex_post
            \<lparr>limit = Some 5, offset = None, orderBy = None, filterBy = None\<rparr> () =
          (Inr p, [u_getList ex_libs ex_post \<lparr>limit = Some 5, offset = None, orderBy = None, filterBy = None\<rparr>
                     (map_of (parseFields ex_libs ()) ''edges''),
                   CountDistinctFirst ''app_post'' ''id as count'']) \<and>
        edges p = None \<and>
        totalCount (pageInfo p) = JNum 0 \<and>
        hasNextPage (pageInfo p) = JNull"
    using getPaginated_page [OF unlisted zero, of "\<lparr>limit = Some 5, offset = None, orderBy = None, filterBy = None\<rparr>"]
    by (auto simp: prop_of_def at_table)
  show ?thesis
    using two five none by blast
qed

section \<open>Properties of loading by foreign key\<close>

lemma orderedFor_length: "length (orderedFor rows ids field) = length ids"
  by (simp add: orderedFor_def)

lemma orderedFor_nth:
  "i < length ids \<Longrightarrow>
   orderedFor (Some rows) ids field ! i = filter (\<lambda>r. prop_of r field = ids ! i) rows"
  by (simp add: orderedFor_def)

text \<open>
  C6. For every list of ids and every answer of the database to the query of
  \<open>getByIds\<close>: the result has one group for each input id, in the order of the ids; the
  group at position \<open>i\<close> holds the rows whose foreign-key field \<open><by>Id\<close> is the \<open>i\<close>-th
  id, all of them and no others; and a database that answers with the same rows in
  another order gives, position by position, the same rows.
\<close>

theorem getByIds_follows_ids:
  assumes "nested_rows D (getByIds_query L ids by Obj info) = Inr (Some rows)"
    and "nested_rows D' (getByIds_query L ids by Obj info) = Inr (Some rows')"
    and "mset rows' = mset rows"
  shows "\<exists>groups groups'.
           fst (getByIds L D ids by Obj info) = Inr groups \<and>
           fst (getByIds L D' ids by Obj info) = Inr groups' \<and>
           length groups = length ids \<and> length groups' = length ids \<and>
           (\<forall>i < length ids.
              set (groups ! i) = {r \<in> set rows. prop_of r (by @ ''Id'') = ids ! i} \<and>
              mset (groups' ! i) = mset (groups ! i))"
proof -
  have g: "fst (getByIds L D ids by Obj info) = Inr (orderedFor (Some rows) ids (by @ ''Id''))"
    using assms(1) by (simp add: getByIds_def await_def)
  have g': "fst (getByIds L D' ids by Obj info) = Inr (orderedFor (Some rows') ids (by @ ''Id''))"
    using assms(2) by (simp add: getByIds_def await_def)
  show ?thesis
    by (auto simp: g g' orderedFor_length orderedFor_nth assms(3))
qed

theorem getByIds_follows_ids_witness:
  "fst (getByIds ex_libs ex_db_comments [JNum 2, JNum 7, JNum 1] ''post'' ex_comment ()) =
     Inr [[[(''id'', JNum 11), (''postId'', JNum 2)]],
          [],
          [[(''id'', JNum 10), (''postId'', JNum 1)], [(''id'', JNum 12), (''postId'', JNum 1)]]] \<and>
   fst (getByIds ex_libs ex_db_comments_rev [JNum 2, JNum 7, JNum 1] ''post'' ex_comment ()) =
     Inr [[[(''id'', JNum 11), (''postId'', JNum 2)]],
          [],
          [[(''id'', JNum 12), (''postId'', JNum 1)], [(''id'', JNum 10), (''postId'', JNum 1)]]]"
proof -
  have straight: "nested_rows ex_db_comments
      (getByIds_query ex_libs [JNum 2, JNum 7, JNum 1] ''post'' ex_comment ()) = Inr (Some ex_comment_rows)"
    by (simp add: ex_db_comments_def)
  have reversed: "nested_rows ex_db_comments_rev
      (getByIds_query ex_libs [JNum 2, JNum 7, JNum 1] ''post'' ex_comment ()) = Inr (Some (rev ex_comment_rows))"
    by (simp add: ex_db_comments_rev_def)
  have same: "mset (rev ex_comment_rows) = mset ex_comment_rows"
    by simp
  show ?thesis
    using getByIds_follows_ids [OF straight reversed same] straight reversed
    by (simp add: getByIds_def await_def orderedFor_def ex_comment_rows_def prop_of_def)
qed

section \<open>What the mutations return\<close>

lemma caught_from_rejects:
  "list_ex (\<lambda>s. rejects D s t) issued \<Longrightarrow> caught_from D own issued t"
  by (cases t) auto

lemma create_settles: "payload_or_errors D [] (ran (create L D self data c info))"
proof -
  obtain nestedEntries data' where ex: "extract_nested (sfields (schema self)) data = (nestedEntries, data')"
    by (cases "extract_nested (sfields (schema self)) data")
  show ?thesis
  proof (cases "returned_ids D (u_create L self data')")
    case (Inl t)
    have "caught_from D [] [u_create L self data'] t"
      by (rule caught_from_rejects) (simp add: rejects_def Inl)
    then show ?thesis
      by (simp add: create_def throwIf_new ex Inl try_catch_def)
  next
    case (Inr ids)
    let ?g = "u_get self [(''id'', first_of ids)] (map_of (parseFields L info) ''node'')"
    show ?thesis
    proof (cases "nested_row D ?g")
      case (Inl t)
      have "caught_from D [] (u_create L self data' # ?g #
          concat (map (child_creates L c (foreign_key L self) (first_of ids)) nestedEntries)) t"
        by (rule caught_from_rejects) (simp add: rejects_def Inl list_ex_iff)
      then show ?thesis
        by (simp add: create_def throwIf_new ex \<open>returned_ids D (u_create L self data') = Inr ids\<close>
            get_run Inl try_catch_def Let_def)
    next
      case (Inr n)
      then show ?thesis
        by (simp add: create_def throwIf_new ex \<open>returned_ids D (u_create L self data') = Inr ids\<close>
            get_run try_catch_def Let_def)
    qed
  qed
qed

lemma update_settles: "payload_or_errors D [] (ran (update L D self data whr c info))"
proof -
  obtain nestedEntries data' where ex: "extract_nested (sfields (schema self)) data = (nestedEntries, data')"
    by (cases "extract_nested (sfields (schema self)) data")
  show ?thesis
  proof (cases "affected D (u_update L self data' whr)")
    case (Inl t)
    have "caught_from D [] [u_update L self data' whr] t"
      by (rule caught_from_rejects) (simp add: rejects_def Inl)
    then show ?thesis
      by (simp add: update_def throwIf_new ex Inl try_catch_def)
  next
    case (Inr k)
    let ?g = "u_get self whr (map_of (parseFields L info) ''node'')"
    show ?thesis
    proof (cases "nested_row D ?g")
      case (Inl t)
      have "caught_from D [] (u_update L self data' whr # ?g #
          concat (map (\<lambda>nested. child_creates L c (foreign_key L self) (prop_of whr ''id'') nested @
                                 child_updates L c nested @ child_deletes L c nested) nestedEntries)) t"
        by (rule caught_from_rejects) (simp add: rejects_def Inl list_ex_iff)
      then show ?thesis
        by (simp add: update_def throwIf_new ex \<open>affected D (u_update L self data' whr) = Inr k\<close>
            get_run Inl try_catch_def Let_def)
    next
      case (Inr n)
      then show ?thesis
        by (simp add: update_def throwIf_new ex \<open>affected D (u_update L self data' whr) = Inr k\<close>
            get_run try_catch_def Let_def)
    qed
  qed
qed

lemma delete_settles:
  "payload_or_errors D [(''delete'', ''Could not delete Node. Please try again later.'')]
     (delete L D self whr info)"
proof (cases "nested_row D (u_get self whr (map_of (parseFields L info) ''node''))")
  case (Inl t)
  have "caught_from D [(''delete'', ''Could not delete Node. Please try again later.'')]
      [u_get self whr (map_of (parseFields L info) ''node'')] t"
    by (rule caught_from_rejects) (simp add: rejects_def Inl)
  then show ?thesis
    by (simp add: delete_def get_run Inl try_catch_def)
next
  case (Inr n)
  show ?thesis
  proof (cases "affected D (u_delete self whr)")
    case (Inl t)
    have "caught_from D [(''delete'', ''Could not delete Node. Please try again later.'')]
        [u_get self whr (map_of (parseFields L info) ''node''), u_delete self whr] t"
      by (rule caught_from_rejects) (simp add: rejects_def Inl)
    then show ?thesis
      by (simp add: delete_def get_run \<open>nested_row D _ = Inr n\<close> Inl try_catch_def await_def)
  next
    case (Inr k)
    then show ?thesis
      by (simp add: delete_def get_run \<open>nested_row D _ = Inr n\<close> try_catch_def await_def
          throwIf_setError)
  qed
qed

lemma sort_settles:
  "payload_or_errors D [(''sort'', ''Could not sort Node. Please try again later.'')]
     (sort_crud D self bindings)"
proof (cases "raw_result D (u_sort self bindings)")
  case (Inl t)
  have "caught_from D [(''sort'', ''Could not sort Node. Please try again later.'')]
      [u_sort self bindings] t"
    by (rule caught_from_rejects) (simp add: rejects_def Inl)
  then show ?thesis
    by (simp add: sort_crud_def throwIf_new Inl try_catch_def await_def)
next
  case (Inr res)
  then show ?thesis
    by (cases res)
      (simp_all add: sort_crud_def throwIf_new try_catch_def await_def throwIf_setError)
qed

lemma deleteMany_settles:
  "payload_or_errors D [(''delete'', ''Could not delete any of selected Node. Please try again later.'')]
     (deleteMany D self id_in)"
proof (cases "affected D (u_deleteMany self id_in)")
  case (Inl t)
  have "caught_from D [(''delete'', ''Could not delete any of selected Node. Please try again later.'')]
      [u_deleteMany self id_in] t"
    by (rule caught_from_rejects) (simp add: rejects_def Inl)
  then show ?thesis
    by (simp add: deleteMany_def Inl try_catch_def await_def)
next
  case (Inr k)
  then show ?thesis
    by (simp add: deleteMany_def try_catch_def await_def throwIf_setError)
qed

lemma updateMany_settles: "returns (updateMany D self data id_in)"
  by (simp add: updateMany_def try_catch_def)

text \<open>
  C7, as the code has it. On a database that rejects the statement, \<open>deleteMany\<close>
  returns \<open>{ errors: e }\<close> where \<open>e\<close> is the rejection it caught, not a list of field
  errors.
\<close>

theorem deleteMany_returns_caught_rejection:
  "deleteMany ex_db_down ex_post [JNum 1] =
     (Inr (Errors (DbError ''connection lost'')), [u_deleteMany ex_post [JNum 1]])"
  by (simp add: deleteMany_def ex_db_down_def try_catch_def await_def)

text \<open>
  C7, amended. Each of \<open>create\<close>, \<open>update\<close>, \<open>delete\<close>, \<open>sort\<close> and \<open>deleteMany\<close>
  returns its payload (a \<open>{ node }\<close> or \<open>{ count }\<close> object) or an object
  \<open>{ errors: e }\<close>, where \<open>e\<close> is what the body threw: the list of the one field error the
  method set, a \<open>TypeError\<close>, or the rejection of a statement the call issued. None of
  the six mutations, \<open>updateMany\<close> included, throws to its caller.
\<close>

theorem mutations_return_payload_or_caught:
  "payload_or_errors D [] (ran (create L D self data c info)) \<and>
   payload_or_errors D [] (ran (update L D self data whr c info)) \<and>
   payload_or_errors D [(''delete'', ''Could not delete Node. Please try again later.'')]
     (delete L D self whr info) \<and>
   payload_or_errors D [(''sort'', ''Could not sort Node. Please try again later.'')]
     (sort_crud D self bindings) \<and>
   payload_or_errors D [(''delete'', ''Could not delete any of selected Node. Please try again later.'')]
     (deleteMany D self id_in) \<and>
   returns (updateMany D self data id_in)"
  by (intro conjI create_settles update_settles delete_settles sort_settles deleteMany_settles
      updateMany_settles)

theorem mutations_return_payload_or_caught_witness:
  "payload_or_errors ex_db_down [] (ran (create ex_libs ex_db_down ex_post [] ex_ctx ())) \<and>
   payload_or_errors ex_db_down [] (ran (update ex_libs ex_db_down ex_post [] [(''id'', JNum 1)] ex_ctx ())) \<and>
   payload_or_errors ex_db_down [(''delete'', ''Could not delete Node. Please try again later.'')]
     (delete ex_libs ex_db_down ex_post [(''id'', JNum 1)] ()) \<and>
   payload_or_errors ex_db_down [(''sort'', ''Could not sort Node. Please try again later.'')]
     (sort_crud ex_db_down ex_post [JNum 1, JNum 2, JNum 20, JNum 10]) \<and>
   payload_or_errors ex_db_down
     [(''delete'', ''Could not delete any of selected Node. Please try again later.'')]
     (deleteMany ex_db_down ex_post [JNum 1]) \<and>
   returns (updateMany ex_db_down ex_post [] [JNum 1])"
  by (rule mutations_return_payload_or_caught)

section \<open>Properties of create and update\<close>

lemma field_of_set_fk: "field_of (set_fk fk v entry) fk = Scalar v"
  by (simp add: field_of_def set_fk_def update_conv')

lemma child_creates_entries:
  assumes "c (pascalize L key) = Some (child key)"
  shows "child_creates L c fk v (key, x) =
     map (\<lambda>(k, entry). u_create L (child k) (set_fk fk v entry)) (create_entries (key, x))"
proof (cases x)
  case (Scalar s)
  then show ?thesis by simp
next
  case (Nested cr u d)
  then show ?thesis
    using assms by (cases cr) (simp_all add: comp_def)
qed

lemma children_of_entries:
  assumes "\<forall>(key, x) \<in> set nestedEntries. c (pascalize L key) = Some (child key)"
  shows "concat (map (child_creates L c fk v) nestedEntries) =
     map (\<lambda>(k, entry). u_create L (child k) (set_fk fk v entry))
       (concat (map create_entries nestedEntries))"
  using assms
proof (induction nestedEntries)
  case Nil
  show ?case by simp
next
  case (Cons n rest)
  obtain key x where n: "n = (key, x)" by (cases n)
  have "c (pascalize L key) = Some (child key)"
    using Cons.prems n by simp
  then show ?case
    using Cons n by (simp add: child_creates_entries)
qed

lemma extract_nested_filter:
  "snd (extract_nested fs data) = filter (\<lambda>(key, v). \<not> taken_out fs data key) data"
proof (induction fs arbitrary: data)
  case Nil
  show ?case by (simp add: taken_out_def)
next
  case (Cons f fs)
  obtain k d where f: "f = (k, d)" by (cases f)
  show ?case
  proof (cases "isArray (ftype d) \<and> truthy_field (field_of data k)")
    case True
    have "snd (extract_nested (f # fs) data) =
        filter (\<lambda>(key, v). \<not> taken_out fs (AList.delete k data) key) (AList.delete k data)"
      using True by (simp add: f Cons.IH case_prod_unfold)
    also have "\<dots> = filter (\<lambda>(key, v). \<not> (key \<noteq> k \<and> taken_out fs data key)) (AList.delete k data)"
      by (simp only: taken_out_delete)
    also have "\<dots> = filter (\<lambda>(key, v). \<not> taken_out (f # fs) data key) data"
      using True unfolding AList.delete_eq filter_filter
      by (intro filter_cong) (auto simp: f taken_out_Cons)
    finally show ?thesis .
  next
    case False
    have "snd (extract_nested (f # fs) data) = filter (\<lambda>(key, v). \<not> taken_out fs data key) data"
      using False by (auto simp: f Cons.IH)
    also have "\<dots> = filter (\<lambda>(key, v). \<not> taken_out (f # fs) data key) data"
      using False by (intro filter_cong) (auto simp: f taken_out_Cons taken_out_def)
    finally show ?thesis .
  qed
qed

lemma create_first_issued:
  "\<exists>rest. snd (ran (create L D self data c info)) =
     u_create L self (snd (extract_nested (sfields (schema self)) data)) # rest"
  by (cases "extract_nested (sfields (schema self)) data")
    (auto simp: create_def throwIf_new get_run try_catch_def Let_def split: sum.splits)

lemma create_issued:
  assumes "extract_nested (sfields (schema self)) data = (nestedEntries, data')"
    and "returned_ids D (u_create L self data') = Inr ids"
  shows "snd (ran (create L D self data c info)) =
     u_create L self data' #
     u_get self [(''id'', first_of ids)] (map_of (parseFields L info) ''node'') #
     concat (map (child_creates L c (foreign_key L self) (first_of ids)) nestedEntries)"
  using assms
  by (simp add: create_def throwIf_new get_run try_catch_def Let_def split: sum.splits)

lemma single_entry:
  assumes "set xs = {x}" and "distinct (map fst xs)"
  shows "xs = [x]"
proof -
  have "distinct xs"
    using assms(2) by (rule distinct_map [THEN iffD1, THEN conjunct1])
  then have "length xs = card (set xs)"
    by (simp add: distinct_card)
  then have "length xs = 1"
    using assms(1) by simp
  then obtain y where "xs = [y]"
    by (cases xs) auto
  with assms(1) show ?thesis by simp
qed

lemma with_fk_entries:
  assumes "(key, Nested (Some entries) u d) \<in> set (map (\<lambda>(k, x). (k, with_fk fk v x)) nestedEntries)"
    and "entry \<in> set entries"
  shows "field_of entry fk = Scalar v"
proof -
  obtain x where x: "(key, x) \<in> set nestedEntries" "with_fk fk v x = Nested (Some entries) u d"
    using assms(1) by auto
  from x(2) obtain before where "x = Nested (Some before) u d" "entries = map (set_fk fk v) before"
    by (cases "(fk, v, x)" rule: with_fk.cases) auto
  with assms(2) show ?thesis
    by (auto simp: field_of_set_fk)
qed

lemma create_data_after:
  "data_after (create L D self data c info) = snd (extract_nested (sfields (schema self)) data)"
  by (simp add: create_def throwIf_new Let_def split: sum.splits prod.splits)

lemma update_data_after:
  "data_after (update L D self data whr c info) = snd (extract_nested (sfields (schema self)) data)"
  by (simp add: update_def throwIf_new Let_def split: sum.splits prod.splits)

lemma create_nested_after:
  assumes "returned_ids D (u_create L self (snd (extract_nested (sfields (schema self)) data))) = Inr ids"
  shows "nested_after (create L D self data c info) =
     map (\<lambda>(k, x). (k, with_fk (foreign_key L self) (first_of ids) x))
       (fst (extract_nested (sfields (schema self)) data))"
proof -
  obtain nestedEntries data' where ex: "extract_nested (sfields (schema self)) data = (nestedEntries, data')"
    by (cases "extract_nested (sfields (schema self)) data")
  with assms have "returned_ids D (u_create L self data') = Inr ids"
    by simp
  then show ?thesis
    by (simp add: create_def throwIf_new ex Let_def split: prod.splits)
qed

lemma update_nested_after:
  assumes "affected D (u_update L self (snd (extract_nested (sfields (schema self)) data)) whr) = Inr k"
  shows "nested_after (update L D self data whr c info) =
     map (\<lambda>(k, x). (k, with_fk (foreign_key L self) (prop_of whr ''id'') x))
       (fst (extract_nested (sfields (schema self)) data))"
proof -
  obtain nestedEntries data' where ex: "extract_nested (sfields (schema self)) data = (nestedEntries, data')"
    by (cases "extract_nested (sfields (schema self)) data")
  with assms have "affected D (u_update L self data' whr) = Inr k"
    by simp
  then show ?thesis
    by (simp add: update_def throwIf_new ex Let_def split: prod.splits)
qed

lemma stripped_differs:
  assumes "taken_out fs data key"
  shows "snd (extract_nested fs data) \<noteq> data"
proof
  assume same: "snd (extract_nested fs data) = data"
  have "map_of (snd (extract_nested fs data)) key = None"
    using assms by (simp add: extract_nested_data)
  with same have "field_of data key = Scalar JUndefined"
    by (simp add: field_of_def)
  with assms show False
    by (simp add: taken_out_def)
qed

text \<open>
  C4, as the code has it. A payload whose \<open>comments\<close> field, of an array type in the
  schema, is \<open>null\<close>: the field is not removed, and the base-row insert carries it.
\<close>

theorem create_inserts_null_collection:
  "snd (ran (create ex_libs ex_db_full ex_post
               [(''title'', Scalar (JStr ''t'')), (''comments'', Scalar JNull)] ex_ctx ())) =
     [Insert ''app_post'' [(''title'', Scalar (JStr ''t'')), (''comments'', Scalar JNull)],
      u_get ex_post [(''id'', JNum 3)] (Some (FObj [(''id'', FTrue), (''title'', FTrue)]))]"
  by (simp add: create_def throwIf_new get_run try_catch_def u_create_def table_of_def
      ex_post_def ex_post_schema_def ex_db_full_def ex_libs_def field_of_def first_of_def
      ex_decamelize_def is_upper_def to_lower_def)

text \<open>
  C4, amended. For every \<open>create\<close> call, the first statement is the base-row insert,
  and its payload is the caller's payload without the fields whose schema type is an
  array and whose value is truthy (a field with a falsy value such as \<open>null\<close> stays),
  whatever the database answers. When the insert is answered and \<open>ctx\<close> holds a sibling
  instance for each key taken out, the statements that follow are the query of the
  final \<open>get\<close> and then one child \<open>_create\<close> for each entry of the \<open>create\<close> list of each
  value taken out (each key once, with the value the payload had for it): an insert on
  the sibling instance of its key, of the entry with the field
  \<open>camelize(schema.name) + 'Id'\<close> set to the first returned id.
\<close>

theorem create_strips_and_creates_children:
  "\<exists>removed rest.
     snd (ran (create L D self data c info)) =
       Insert (prefix self @ tableName self)
         (decamelizeKeys L (filter (\<lambda>(key, v). \<not> taken_out (sfields (schema self)) data key) data)) #
       rest \<and>
     set removed = {(key, field_of data key) | key. taken_out (sfields (schema self)) data key} \<and>
     distinct (map fst removed) \<and>
     (\<forall>ids child.
        returned_ids D
          (Insert (prefix self @ tableName self)
             (decamelizeKeys L (filter (\<lambda>(key, v). \<not> taken_out (sfields (schema self)) data key) data))) =
          Inr ids \<and>
        (\<forall>key. taken_out (sfields (schema self)) data key \<longrightarrow> c (pascalize L key) = Some (child key)) \<longrightarrow>
        rest =
          u_get self [(''id'', first_of ids)] (map_of (parseFields L info) ''node'') #
          map (\<lambda>(key, entry).
                 Insert (prefix (child key) @ tableName (child key))
                   (decamelizeKeys L
                      (AList.update (camelize L (sname (schema self)) @ ''Id'') (Scalar (first_of ids)) entry)))
            (concat (map create_entries removed)))"
proof -
  let ?fs = "sfields (schema self)"
  let ?removed = "fst (extract_nested ?fs data)"
  let ?stripped = "filter (\<lambda>(key, v). \<not> taken_out ?fs data key) data"
  let ?base = "Insert (prefix self @ tableName self) (decamelizeKeys L ?stripped)"
  have base: "u_create L self (snd (extract_nested ?fs data)) = ?base"
    by (simp add: u_create_def table_of_def extract_nested_filter)
  obtain rest where rest: "snd (ran (create L D self data c info)) = ?base # rest"
    using create_first_issued [of L D self data c info] base by auto
  have children: "rest =
      u_get self [(''id'', first_of ids)] (map_of (parseFields L info) ''node'') #
      map (\<lambda>(key, entry).
             Insert (prefix (child key) @ tableName (child key))
               (decamelizeKeys L
                  (AList.update (camelize L (sname (schema self)) @ ''Id'') (Scalar (first_of ids)) entry)))
        (concat (map create_entries ?removed))"
    if answered: "returned_ids D ?base = Inr ids"
      and siblings: "\<forall>key. taken_out ?fs data key \<longrightarrow> c (pascalize L key) = Some (child key)"
    for ids child
  proof -
    have "\<forall>(key, x) \<in> set ?removed. c (pascalize L key) = Some (child key)"
      using siblings by (auto simp: extract_nested_entries)
    then have "concat (map (child_creates L c (foreign_key L self) (first_of ids)) ?removed) =
        map (\<lambda>(k, entry). u_create L (child k) (set_fk (foreign_key L self) (first_of ids) entry))
          (concat (map create_entries ?removed))"
      by (rule children_of_entries)
    moreover have "snd (ran (create L D self data c info)) =
        u_create L self (snd (extract_nested ?fs data)) #
        u_get self [(''id'', first_of ids)] (map_of (parseFields L info) ''node'') #
        concat (map (child_creates L c (foreign_key L self) (first_of ids)) ?removed)"
      using answered by (intro create_issued) (simp_all add: base)
    ultimately show ?thesis
      using rest by (simp add: base u_create_def table_of_def set_fk_def foreign_key_def split_def)
  qed
  have "set ?removed = {(key, field_of data key) | key. taken_out ?fs data key}"
    by (rule extract_nested_entries)
  moreover have "distinct (map fst ?removed)"
    by (rule extract_nested_distinct)
  ultimately show ?thesis
    using rest children by blast
qed

theorem create_strips_and_creates_children_witness:
  "snd (ran (create ex_libs ex_db_full ex_post ex_new_post ex_ctx ())) =
     [Insert ''app_post'' [(''title'', Scalar (JStr ''t''))],
      u_get ex_post [(''id'', JNum 3)] (map_of (parseFields ex_libs ()) ''node''),
      Insert ''app_comment'' [(''content'', Scalar (JStr ''hi'')), (''post_id'', Scalar (JNum 3))],
      Insert ''app_comment'' [(''content'', Scalar (JStr ''yo'')), (''post_id'', Scalar (JNum 3))]]"
proof -
  let ?comments = "Nested (Some [[(''content'', Scalar (JStr ''hi''))], [(''content'', Scalar (JStr ''yo''))]])
      None None"
  have taken: "taken_out (sfields (schema ex_post)) ex_new_post key \<longleftrightarrow> key = ''comments''" for key
    by (auto simp: taken_out_def ex_post_def ex_post_schema_def ex_new_post_def field_of_def)
  have inserted: "returned_ids ex_db_full s = Inr [JNum 3]" for s
    by (simp add: ex_db_full_def)
  have sibling: "\<forall>key. taken_out (sfields (schema ex_post)) ex_new_post key \<longrightarrow>
      ex_ctx (pascalize ex_libs key) = Some ((\<lambda>k. ex_comment) key)"
    by (simp add: taken ex_ctx_def ex_libs_def ex_camelize_def lower_first_def upper_first_def
        to_upper_def to_lower_def)
  have stripped: "filter (\<lambda>(key, v). \<not> taken_out (sfields (schema ex_post)) ex_new_post key) ex_new_post =
      [(''title'', Scalar (JStr ''t''))]"
    by (simp add: taken) (simp add: ex_new_post_def)
  have only: "{(key, field_of ex_new_post key) | key. taken_out (sfields (schema ex_post)) ex_new_post key} =
      {(''comments'', ?comments)}"
    by (simp add: taken) (simp add: ex_new_post_def field_of_def)
  obtain removed rest where all:
    "snd (ran (create ex_libs ex_db_full ex_post ex_new_post ex_ctx ())) =
       Insert (prefix ex_post @ tableName ex_post)
         (decamelizeKeys ex_libs
            (filter (\<lambda>(key, v). \<not> taken_out (sfields (schema ex_post)) ex_new_post key) ex_new_post)) #
       rest \<and>
     set removed =
       {(key, field_of ex_new_post key) | key. taken_out (sfields (schema ex_post)) ex_new_post key} \<and>
     distinct (map fst removed) \<and>
     (\<forall>ids child.
        returned_ids ex_db_full
          (Insert (prefix ex_post @ tableName ex_post)
             (decamelizeKeys ex_libs
                (filter (\<lambda>(key, v). \<not> taken_out (sfields (schema ex_post)) ex_new_post key) ex_new_post))) =
          Inr ids \<and>
        (\<forall>key. taken_out (sfields (schema ex_post)) ex_new_post key \<longrightarrow>
           ex_ctx (pascalize ex_libs key) = Some (child key)) \<longrightarrow>
        rest =
          u_get ex_post [(''id'', first_of ids)] (map_of (parseFields ex_libs ()) ''node'') #
          map (\<lambda>(key, entry).
                 Insert (prefix (child key) @ tableName (child key))
                   (decamelizeKeys ex_libs
                      (AList.update (camelize ex_libs (sname (schema ex_post)) @ ''Id'')
                         (Scalar (first_of ids)) entry)))
            (concat (map create_entries removed)))"
    using create_strips_and_creates_children [of ex_libs ex_db_full ex_post ex_new_post ex_ctx "()"]
    by (elim exE) (rule that)
  note issued = all [THEN conjunct1]
  note removed = all [THEN conjunct2, THEN conjunct1] all [THEN conjunct2, THEN conjunct2, THEN conjunct1]
  note children = all [THEN conjunct2, THEN conjunct2, THEN conjunct2, rule_format, OF conjI]
  have "removed = [(''comments'', ?comments)]"
    using removed only by (intro single_entry) simp_all
  with children [OF inserted sibling] have "rest =
      [u_get ex_post [(''id'', JNum 3)] (map_of (parseFields ex_libs ()) ''node''),
       Insert ''app_comment'' [(''content'', Scalar (JStr ''hi'')), (''post_id'', Scalar (JNum 3))],
       Insert ''app_comment'' [(''content'', Scalar (JStr ''yo'')), (''post_id'', Scalar (JNum 3))]]"
    by (simp add: first_of_def ex_comment_def ex_post_def ex_post_schema_def ex_libs_def
        ex_camelize_def lower_first_def ex_decamelize_def is_upper_def to_lower_def)
  with issued show ?thesis
    by (simp add: stripped) (simp add: ex_post_def ex_libs_def ex_decamelize_def is_upper_def to_lower_def)
qed

text \<open>
  C10, as the code has it. A payload whose \<open>comments\<close> field, of an array type in the
  schema, is \<open>null\<close>: after the call the caller's object is what it was, the field
  still in it.
\<close>

theorem create_leaves_null_collection:
  "data_after (create ex_libs ex_db_full ex_post ex_bare_post ex_ctx ()) = ex_bare_post"
  by (simp add: create_data_after ex_post_def ex_post_schema_def ex_bare_post_def field_of_def)

text \<open>
  C10, amended. \<open>create\<close> and \<open>update\<close> change the caller's \<open>data\<close> object in place:
  whatever becomes of the statements, the object loses each field whose schema type is
  an array and whose value is truthy, and keeps every other field (so it is changed
  exactly when it has such a field; a field with a falsy value such as \<open>null\<close> stays).
  Once the base-row insert (the base-row update) is answered, the values taken out are
  the ones the object had, with every entry of their \<open>create\<close> lists carrying the
  foreign-key property, set to the first returned id (to \<open>args.where.id\<close>).
\<close>

theorem create_update_change_data_in_place:
  "(\<forall>key. map_of (data_after (create L D self data c info)) key =
      (if taken_out (sfields (schema self)) data key then None else map_of data key)) \<and>
   (\<forall>key. map_of (data_after (update L D self data whr c info)) key =
      (if taken_out (sfields (schema self)) data key then None else map_of data key)) \<and>
   ((\<exists>key. taken_out (sfields (schema self)) data key) \<longrightarrow>
      data_after (create L D self data c info) \<noteq> data \<and>
      data_after (update L D self data whr c info) \<noteq> data) \<and>
   (\<forall>ids. returned_ids D (u_create L self (data_after (create L D self data c info))) = Inr ids \<longrightarrow>
      (\<exists>removed.
         set removed = {(key, field_of data key) | key. taken_out (sfields (schema self)) data key} \<and>
         nested_after (create L D self data c info) =
           map (\<lambda>(key, x). (key, with_fk (foreign_key L self) (first_of ids) x)) removed) \<and>
      (\<forall>key entries u d entry.
         (key, Nested (Some entries) u d) \<in> set (nested_after (create L D self data c info)) \<and>
         entry \<in> set entries \<longrightarrow>
         field_of entry (foreign_key L self) = Scalar (first_of ids))) \<and>
   (\<forall>k. affected D (u_update L self (data_after (update L D self data whr c info)) whr) = Inr k \<longrightarrow>
      (\<exists>removed.
         set removed = {(key, field_of data key) | key. taken_out (sfields (schema self)) data key} \<and>
         nested_after (update L D self data whr c info) =
           map (\<lambda>(key, x). (key, with_fk (foreign_key L self) (prop_of whr ''id'') x)) removed) \<and>
      (\<forall>key entries u d entry.
         (key, Nested (Some entries) u d) \<in> set (nested_after (update L D self data whr c info)) \<and>
         entry \<in> set entries \<longrightarrow>
         field_of entry (foreign_key L self) = Scalar (prop_of whr ''id'')))"
proof (intro conjI allI impI)
  fix key
  show "map_of (data_after (create L D self data c info)) key =
      (if taken_out (sfields (schema self)) data key then None else map_of data key)"
    by (simp add: create_data_after extract_nested_data)
  show "map_of (data_after (update L D self data whr c info)) key =
      (if taken_out (sfields (schema self)) data key then None else map_of data key)"
    by (simp add: update_data_after extract_nested_data)
next
  assume "\<exists>key. taken_out (sfields (schema self)) data key"
  then obtain key where "taken_out (sfields (schema self)) data key" ..
  then show "data_after (create L D self data c info) \<noteq> data"
    and "data_after (update L D self data whr c info) \<noteq> data"
    by (simp_all add: create_data_after update_data_after stripped_differs)
next
  fix ids
  assume "returned_ids D (u_create L self (data_after (create L D self data c info))) = Inr ids"
  then have after: "nested_after (create L D self data c info) =
      map (\<lambda>(k, x). (k, with_fk (foreign_key L self) (first_of ids) x))
        (fst (extract_nested (sfields (schema self)) data))"
    by (simp add: create_data_after create_nested_after)
  show "\<exists>removed.
         set removed = {(key, field_of data key) | key. taken_out (sfields (schema self)) data key} \<and>
         nested_after (create L D self data c info) =
           map (\<lambda>(key, x). (key, with_fk (foreign_key L self) (first_of ids) x)) removed"
    using after extract_nested_entries by blast
  fix key entries u d entry
  assume "(key, Nested (Some entries) u d) \<in> set (nested_after (create L D self data c info)) \<and>
      entry \<in> set entries"
  then show "field_of entry (foreign_key L self) = Scalar (first_of ids)"
    using with_fk_entries after by metis
next
  fix k
  assume "affected D (u_update L self (data_after (update L D self data whr c info)) whr) = Inr k"
  then have after: "nested_after (update L D self data whr c info) =
      map (\<lambda>(k, x). (k, with_fk (foreign_key L self) (prop_of whr ''id'') x))
        (fst (extract_nested (sfields (schema self)) data))"
    by (simp add: update_data_after update_nested_after)
  show "\<exists>removed.
         set removed = {(key, field_of data key) | key. taken_out (sfields (schema self)) data key} \<and>
         nested_after (update L D self data whr c info) =
           map (\<lambda>(key, x). (key, with_fk (foreign_key L self) (prop_of whr ''id'') x)) removed"
    using after extract_nested_entries by blast
  fix key entries u d entry
  assume "(key, Nested (Some entries) u d) \<in> set (nested_after (update L D self data whr c info)) \<and>
      entry \<in> set entries"
  then show "field_of entry (foreign_key L self) = Scalar (prop_of whr ''id'')"
    using with_fk_entries after by metis
qed

theorem create_update_change_data_in_place_witness:
  "data_after (create ex_libs ex_db_full ex_post ex_new_post ex_ctx ()) = [(''title'', Scalar (JStr ''t''))] \<and>
   data_after (update ex_libs ex_db_full ex_post ex_new_post [(''id'', JNum 1)] ex_ctx ()) =
     [(''title'', Scalar (JStr ''t''))] \<and>
   data_after (create ex_libs ex_db_full ex_post ex_new_post ex_ctx ()) \<noteq> ex_new_post \<and>
   data_after (update ex_libs ex_db_full ex_post ex_new_post [(''id'', JNum 1)] ex_ctx ()) \<noteq> ex_new_post \<and>
   nested_after (create ex_libs ex_db_full ex_post ex_new_post ex_ctx ()) =
     [(''comments'',
       Nested (Some [[(''content'', Scalar (JStr ''hi'')), (''postId'', Scalar (JNum 3))],
                     [(''content'', Scalar (JStr ''yo'')), (''postId'', Scalar (JNum 3))]]) None None)] \<and>
   nested_after (update ex_libs ex_db_full ex_post ex_new_post [(''id'', JNum 1)] ex_ctx ()) =
     [(''comments'',
       Nested (Some [[(''content'', Scalar (JStr ''hi'')), (''postId'', Scalar (JNum 1))],
                     [(''content'', Scalar (JStr ''yo'')), (''postId'', Scalar (JNum 1))]]) None None)]"
proof -
  have has_nested: "\<exists>key. taken_out (sfields (schema ex_post)) ex_new_post key"
    by (rule exI [of _ "''comments''"])
      (simp add: taken_out_def ex_post_def ex_post_schema_def ex_new_post_def field_of_def)
  have inserted: "returned_ids ex_db_full (u_create ex_libs ex_post
      (data_after (create ex_libs ex_db_full ex_post ex_new_post ex_ctx ()))) = Inr [JNum 3]"
    by (simp add: ex_db_full_def)
  have updated: "affected ex_db_full (u_update ex_libs ex_post
      (data_after (update ex_libs ex_db_full ex_post ex_new_post [(''id'', JNum 1)] ex_ctx ()))
      [(''id'', JNum 1)]) = Inr 1"
    by (simp add: ex_db_full_def)
  have after: "data_after (create ex_libs ex_db_full ex_post ex_new_post ex_ctx ()) = [(''title'', Scalar (JStr ''t''))] \<and>
   data_after (update ex_libs ex_db_full ex_post ex_new_post [(''id'', JNum 1)] ex_ctx ()) =
     [(''title'', Scalar (JStr ''t''))] \<and>
   data_after (create ex_libs ex_db_full ex_post ex_new_post ex_ctx ()) \<noteq> ex_new_post \<and>
   data_after (update ex_libs ex_db_full ex_post ex_new_post [(''id'', JNum 1)] ex_ctx ()) \<noteq> ex_new_post \<and>
   nested_after (create ex_libs ex_db_full ex_post ex_new_post ex_ctx ()) =
     [(''comments'',
       Nested (Some [[(''content'', Scalar (JStr ''hi'')), (''postId'', Scalar (JNum 3))],
                     [(''content'', Scalar (JStr ''yo'')), (''postId'', Scalar (JNum 3))]]) None None)] \<and>
   nested_after (update ex_libs ex_db_full ex_post ex_new_post [(''id'', JNum 1)] ex_ctx ()) =
     [(''comments'',
       Nested (Some [[(''content'', Scalar (JStr ''hi'')), (''postId'', Scalar (JNum 1))],
                     [(''content'', Scalar (JStr ''yo'')), (''postId'', Scalar (JNum 1))]]) None None)]"
    by (simp add: create_def update_def throwIf_new get_run try_catch_def Let_def
        ex_post_def ex_post_schema_def ex_db_full_def ex_libs_def
        ex_new_post_def field_of_def first_of_def foreign_key_def set_fk_def prop_of_def
        ex_camelize_def lower_first_def to_lower_def)
  show ?thesis
    using create_update_change_data_in_place
      [of ex_libs ex_db_full ex_post ex_new_post ex_ctx "()" "[(''id'', JNum 1)]"]
      has_nested inserted updated
    by - (rule after)
qed

end
